theory Spec2Isabelle
  imports Main
begin

section \<open>The persisted rows\<close>

text \<open>
  The engine (apps/engine/src/index.ts) is a set of request handlers over a shared
  store; every handler reads rows, calls a pure function of logic.js and writes rows.
  The tables are lists of rows, in insertion order. Identifiers are the store's
  uuid strings. Timestamps (last_activity_at, processed_at, connected_at) are left out:
  no handler reads them.
\<close>

type_synonym uuid = string
type_synonym card = string

record Room =
  r_id :: uuid
  game_mode :: string
  small_blind :: int
  big_blind :: int
  is_active :: bool
  is_paused :: bool
  current_hand_number :: int
  button_seat :: "int option"

record RoomPlayer =
  p_id :: uuid
  p_room_id :: uuid
  seat_number :: int
  auth_user_id :: "uuid option"
  display_name :: string
  total_buy_in :: int
  chip_stack :: int
  current_bet :: int
  has_folded :: bool
  is_all_in :: bool
  is_spectating :: bool

text \<open>\<open>Partial<RoomPlayer>\<close>: every field may be absent.\<close>

record PartialRoomPlayer =
  u_id :: "uuid option"
  u_room_id :: "uuid option"
  u_seat_number :: "int option"
  u_auth_user_id :: "uuid option option"
  u_display_name :: "string option"
  u_total_buy_in :: "int option"
  u_chip_stack :: "int option"
  u_current_bet :: "int option"
  u_has_folded :: "bool option"
  u_is_all_in :: "bool option"

record BoardState =
  board1 :: "card list option"
  board2 :: "card list option"

record GameStateRow =
  gs_id :: uuid
  gs_room_id :: uuid
  hand_number :: int
  gs_button_seat :: int
  phase :: string
  pot_size :: int
  gs_current_bet :: int
  board_state :: "BoardState option"
  action_history :: "string list"

text \<open>\<open>Partial<GameStateRow>\<close>, the update an action returns.\<close>

record PartialGameState =
  ug_phase :: "string option"
  ug_pot_size :: "int option"
  ug_current_bet :: "int option"
  ug_board_state :: "BoardState option option"
  ug_action_history :: "string list option"

record GameStateSecret =
  s_game_state_id :: uuid
  deck_seed :: string
  full_board1 :: "card list"
  full_board2 :: "card list"

record PlayerHand =
  h_room_id :: uuid
  h_game_state_id :: uuid
  h_seat_number :: int
  cards :: "card list"
  h_auth_user_id :: "uuid option"

datatype ActionType = Fold | Check | Call | Bet | Raise | AllIn

record PlayerAction =
  a_room_id :: uuid
  a_game_state_id :: uuid
  a_seat_number :: int
  action_type :: ActionType
  a_amount :: "int option"
  processed :: bool
  error_message :: "string option"
  a_auth_user_id :: "uuid option"

record HandResult =
  hr_room_id :: uuid
  hr_hand_number :: int
  final_pot :: int
  board_a :: "card list option"
  board_b :: "card list option"
  winners :: "int list"
  hr_action_history :: "string list"

record store =
  rooms :: "Room list"
  room_players :: "RoomPlayer list"
  game_states :: "GameStateRow list"
  game_state_secrets :: "GameStateSecret list"
  player_hands :: "PlayerHand list"
  player_actions :: "PlayerAction list"
  hand_results :: "HandResult list"

text \<open>
  A write to the store either takes effect or returns an error, which the handler
  throws (\<open>if (error) throw error\<close>). Which writes fail is an input of the model: a
  \<open>fault\<close> is the error message of a failing write, \<open>None\<close> for a write that succeeds.
  Reads are taken to succeed.
\<close>

type_synonym fault = "string option"

text \<open>
  \<open>err instanceof Error ? err.message : "Unknown error"\<close>, the message of every \<open>catch\<close>.
  What the handlers throw are the error objects the store client returns; whether
  these are instances of \<open>Error\<close> is decided by the client library, so it is an input.
\<close>

definition thrown_message :: "bool \<Rightarrow> string \<Rightarrow> string" where
  "thrown_message instanceof_Error e = (if instanceof_Error then e else ''Unknown error'')"

datatype response =
    ErrorResponse nat string
  | HandStarted GameStateRow string
  | ActionDone "GameStateRow option"

section \<open>Reads\<close>

text \<open>\<open>fetchRoom\<close>: \<open>.from("rooms").select("*").eq("id", roomId).maybeSingle()\<close>.\<close>

definition fetchRoom :: "store \<Rightarrow> uuid \<Rightarrow> Room option" where
  "fetchRoom db roomId = find (\<lambda>r. r_id r = roomId) (rooms db)"

fun insort_seat :: "RoomPlayer \<Rightarrow> RoomPlayer list \<Rightarrow> RoomPlayer list" where
  "insort_seat p [] = [p]"
| "insort_seat p (q # qs) =
     (if seat_number p < seat_number q then p # q # qs else q # insort_seat p qs)"

text \<open>\<open>fetchPlayers\<close>: the room's players in ascending seat order.\<close>

definition fetchPlayers :: "store \<Rightarrow> uuid \<Rightarrow> RoomPlayer list" where
  "fetchPlayers db roomId =
     foldr insort_seat (filter (\<lambda>p. p_room_id p = roomId) (room_players db)) []"

fun latest :: "GameStateRow list \<Rightarrow> GameStateRow option" where
  "latest [] = None"
| "latest (g # gs) =
     (case latest gs of
        None \<Rightarrow> Some g
      | Some h \<Rightarrow> if hand_number h > hand_number g then Some h else Some g)"

text \<open>\<open>fetchLatestGameState\<close>: the room's row with the greatest hand number, if any.\<close>

definition fetchLatestGameState :: "store \<Rightarrow> uuid \<Rightarrow> GameStateRow option" where
  "fetchLatestGameState db roomId =
     latest (filter (\<lambda>g. gs_room_id g = roomId) (game_states db))"

text \<open>\<open>fetchGameStateSecret\<close> (secrets.js is not among the sources; its call site
  reads the secret of one game state, or null).\<close>

definition fetchGameStateSecret :: "store \<Rightarrow> uuid \<Rightarrow> GameStateSecret option" where
  "fetchGameStateSecret db gid = find (\<lambda>s. s_game_state_id s = gid) (game_state_secrets db)"

section \<open>Writes\<close>

text \<open>
  \<open>upsert\<close> on room_players: a row whose id is stored overwrites the columns it
  carries; a row with a new id is inserted when it carries every column. One command
  cannot touch a row twice (PostgreSQL error 21000, which the action handler's comment
  names), and a new row with a column missing is rejected.
\<close>

definition merge_player :: "RoomPlayer \<Rightarrow> PartialRoomPlayer \<Rightarrow> RoomPlayer" where
  "merge_player p u =
     \<lparr> p_id = (case u_id u of Some v \<Rightarrow> v | None \<Rightarrow> p_id p),
       p_room_id = (case u_room_id u of Some v \<Rightarrow> v | None \<Rightarrow> p_room_id p),
       seat_number = (case u_seat_number u of Some v \<Rightarrow> v | None \<Rightarrow> seat_number p),
       auth_user_id = (case u_auth_user_id u of Some v \<Rightarrow> v | None \<Rightarrow> auth_user_id p),
       display_name = (case u_display_name u of Some v \<Rightarrow> v | None \<Rightarrow> display_name p),
       total_buy_in = (case u_total_buy_in u of Some v \<Rightarrow> v | None \<Rightarrow> total_buy_in p),
       chip_stack = (case u_chip_stack u of Some v \<Rightarrow> v | None \<Rightarrow> chip_stack p),
       current_bet = (case u_current_bet u of Some v \<Rightarrow> v | None \<Rightarrow> current_bet p),
       has_folded = (case u_has_folded u of Some v \<Rightarrow> v | None \<Rightarrow> has_folded p),
       is_all_in = (case u_is_all_in u of Some v \<Rightarrow> v | None \<Rightarrow> is_all_in p),
       is_spectating = is_spectating p \<rparr>"

definition complete_player :: "PartialRoomPlayer \<Rightarrow> RoomPlayer option" where
  "complete_player u =
     (case (u_id u, u_room_id u, u_seat_number u, u_auth_user_id u, u_display_name u,
            u_total_buy_in u, u_chip_stack u) of
        (Some i, Some r, Some s, Some a, Some d, Some t, Some c) \<Rightarrow>
          Some \<lparr> p_id = i, p_room_id = r, seat_number = s, auth_user_id = a,
                 display_name = d, total_buy_in = t, chip_stack = c,
                 current_bet = (case u_current_bet u of Some v \<Rightarrow> v | None \<Rightarrow> 0),
                 has_folded = (case u_has_folded u of Some v \<Rightarrow> v | None \<Rightarrow> False),
                 is_all_in = (case u_is_all_in u of Some v \<Rightarrow> v | None \<Rightarrow> False),
                 is_spectating = False \<rparr>
      | _ \<Rightarrow> None)"

fun upsert_row :: "PartialRoomPlayer \<Rightarrow> RoomPlayer list \<Rightarrow> RoomPlayer list option" where
  "upsert_row u [] = map_option (\<lambda>p. [p]) (complete_player u)"
| "upsert_row u (p # ps) =
     (if u_id u = Some (p_id p) then Some (merge_player p u # ps)
      else map_option (\<lambda>qs. p # qs) (upsert_row u ps))"

fun upsert_rows :: "PartialRoomPlayer list \<Rightarrow> RoomPlayer list \<Rightarrow> RoomPlayer list option" where
  "upsert_rows [] tbl = Some tbl"
| "upsert_rows (u # us) tbl =
     (case upsert_row u tbl of None \<Rightarrow> None | Some tbl' \<Rightarrow> upsert_rows us tbl')"

definition upsert_players :: "fault \<Rightarrow> PartialRoomPlayer list \<Rightarrow> store \<Rightarrow> string + store" where
  "upsert_players f us db =
     (case f of
        Some e \<Rightarrow> Inl e
      | None \<Rightarrow>
          if \<not> distinct (List.map_filter u_id us)
          then Inl ''ON CONFLICT DO UPDATE command cannot affect row a second time''
          else (case upsert_rows us (room_players db) of
                  None \<Rightarrow> Inl ''null value in column violates not-null constraint''
                | Some tbl \<Rightarrow> Inr (db\<lparr>room_players := tbl\<rparr>)))"

section \<open>The functions of logic.js\<close>

text \<open>
  logic.js (\<open>dealHand\<close>, \<open>applyAction\<close>, \<open>determineDoubleBoardWinners\<close>,
  \<open>endOfHandPayout\<close>) is not among the sources. The handlers call these four pure
  functions; here they are parameters of the handlers, with the result shapes the
  handlers destructure.
\<close>

record DealtHand =
  dh_seat_number :: int
  dh_cards :: "card list"
  dh_auth_user_id :: "uuid option"

text \<open>The \<open>gameState\<close> of a deal is an insert payload: the store assigns its id.\<close>

record DealResult =
  d_gameState :: GameStateRow
  d_playerHands :: "DealtHand list"
  d_updatedPlayers :: "PartialRoomPlayer list"
  d_deckSeed :: string
  d_fullBoard1 :: "card list"
  d_fullBoard2 :: "card list"

record ActionContext =
  c_room :: Room
  c_players :: "RoomPlayer list"
  c_gameState :: GameStateRow
  c_fullBoard1 :: "card list"
  c_fullBoard2 :: "card list"

record Outcome =
  o_error :: "string option"
  o_updatedPlayers :: "PartialRoomPlayer list"
  o_updatedGameState :: PartialGameState
  o_handCompleted :: bool
  o_autoWinners :: "int list option"
  o_potAwarded :: "int option"

record Payout =
  seat :: int
  amount :: int

record Logic =
  dealHand :: "Room \<Rightarrow> RoomPlayer list \<Rightarrow> string option \<Rightarrow> DealResult"
  applyAction :: "ActionContext \<Rightarrow> int \<Rightarrow> ActionType \<Rightarrow> int option \<Rightarrow> Outcome"
  determineDoubleBoardWinners ::
    "(int \<times> card list) list \<Rightarrow> card list \<Rightarrow> card list \<Rightarrow> int list \<times> int list"
  endOfHandPayout :: "int list \<Rightarrow> int list \<Rightarrow> int \<Rightarrow> Payout list"

section \<open>POST /rooms/:roomId/start-hand\<close>

record start_env =
  new_game_state_id :: uuid
  f_insert_game_state :: fault
  f_insert_secret :: fault
  f_insert_hands :: fault
  f_upsert_players :: fault
  f_update_room :: fault
  f_rollback_hands :: fault
  f_rollback_secret :: fault
  f_rollback_game_state :: fault
  s_instanceof_Error :: bool

definition insert_game_state ::
  "fault \<Rightarrow> uuid \<Rightarrow> GameStateRow \<Rightarrow> store \<Rightarrow> string + (GameStateRow \<times> store)" where
  "insert_game_state f new_id g db =
     (case f of
        Some e \<Rightarrow> Inl e
      | None \<Rightarrow> (let gs = g\<lparr>gs_id := new_id\<rparr>
                 in Inr (gs, db\<lparr>game_states := game_states db @ [gs]\<rparr>)))"

definition insert_secret :: "fault \<Rightarrow> GameStateSecret \<Rightarrow> store \<Rightarrow> string + store" where
  "insert_secret f s db =
     (case f of
        Some e \<Rightarrow> Inl e
      | None \<Rightarrow> Inr (db\<lparr>game_state_secrets := game_state_secrets db @ [s]\<rparr>))"

definition insert_player_hands :: "fault \<Rightarrow> PlayerHand list \<Rightarrow> store \<Rightarrow> string + store" where
  "insert_player_hands f hs db =
     (case f of
        Some e \<Rightarrow> Inl e
      | None \<Rightarrow> Inr (db\<lparr>player_hands := player_hands db @ hs\<rparr>))"

text \<open>The update of the room row: its error is not inspected, so a failure only
  leaves the row as it was.\<close>

definition update_room_after_deal :: "fault \<Rightarrow> uuid \<Rightarrow> GameStateRow \<Rightarrow> store \<Rightarrow> store" where
  "update_room_after_deal f roomId g db =
     (case f of
        Some e \<Rightarrow> db
      | None \<Rightarrow>
          db\<lparr>rooms :=
               map (\<lambda>r. if r_id r = roomId
                         then r\<lparr>current_hand_number := hand_number g,
                                button_seat := Some (gs_button_seat g)\<rparr>
                         else r) (rooms db)\<rparr>)"

text \<open>
  The body of the \<open>try\<close>. A thrown error carries the value \<open>createdGameStateId\<close> has
  at that moment and the store as the writes so far left it.
\<close>

definition start_hand_try ::
  "start_env \<Rightarrow> uuid \<Rightarrow> DealResult \<Rightarrow> store
     \<Rightarrow> (string \<times> uuid option \<times> store) + (GameStateRow \<times> store)" where
  "start_hand_try env roomId d db =
     (case insert_game_state (f_insert_game_state env) (new_game_state_id env) (d_gameState d) db of
        Inl e \<Rightarrow> Inl (e, None, db)
      | Inr (gs, db1) \<Rightarrow>
          (case insert_secret (f_insert_secret env)
                  \<lparr> s_game_state_id = gs_id gs, deck_seed = d_deckSeed d,
                    full_board1 = d_fullBoard1 d, full_board2 = d_fullBoard2 d \<rparr> db1 of
             Inl e \<Rightarrow> Inl (e, Some (gs_id gs), db1)
           | Inr db2 \<Rightarrow>
               (case (if d_playerHands d \<noteq> []
                      then insert_player_hands (f_insert_hands env)
                             (map (\<lambda>h. \<lparr> h_room_id = roomId, h_game_state_id = gs_id gs,
                                         h_seat_number = dh_seat_number h, cards = dh_cards h,
                                         h_auth_user_id = dh_auth_user_id h \<rparr>)
                                  (d_playerHands d)) db2
                      else Inr db2) of
                  Inl e \<Rightarrow> Inl (e, Some (gs_id gs), db2)
                | Inr db3 \<Rightarrow>
                    (case (if d_updatedPlayers d \<noteq> []
                           then upsert_players (f_upsert_players env) (d_updatedPlayers d) db3
                           else Inr db3) of
                       Inl e \<Rightarrow> Inl (e, Some (gs_id gs), db3)
                     | Inr db4 \<Rightarrow>
                         Inr (gs, update_room_after_deal (f_update_room env) roomId gs db4)))))"

text \<open>
  The \<open>catch\<close>: three deletes by the created id. Their results are not inspected:
  a delete that fails leaves its rows, and the next one is still made. The delete of
  the hand-state row takes the secret row with it (\<open>references public.game_states on
  delete cascade\<close>).
\<close>

definition delete_hands_of :: "fault \<Rightarrow> uuid \<Rightarrow> store \<Rightarrow> store" where
  "delete_hands_of f gid db =
     (case f of
        Some e \<Rightarrow> db
      | None \<Rightarrow>
          db\<lparr>player_hands := filter (\<lambda>h. h_game_state_id h \<noteq> gid) (player_hands db)\<rparr>)"

definition delete_secret_of :: "fault \<Rightarrow> uuid \<Rightarrow> store \<Rightarrow> store" where
  "delete_secret_of f gid db =
     (case f of
        Some e \<Rightarrow> db
      | None \<Rightarrow>
          db\<lparr>game_state_secrets :=
               filter (\<lambda>s. s_game_state_id s \<noteq> gid) (game_state_secrets db)\<rparr>)"

definition delete_created_game_state :: "fault \<Rightarrow> uuid \<Rightarrow> store \<Rightarrow> store" where
  "delete_created_game_state f gid db =
     (case f of
        Some e \<Rightarrow> db
      | None \<Rightarrow>
          db\<lparr> game_states := filter (\<lambda>g. gs_id g \<noteq> gid) (game_states db),
              game_state_secrets :=
                filter (\<lambda>s. s_game_state_id s \<noteq> gid) (game_state_secrets db) \<rparr>)"

definition rollback :: "start_env \<Rightarrow> uuid \<Rightarrow> store \<Rightarrow> store" where
  "rollback env createdGameStateId db =
     delete_created_game_state (f_rollback_game_state env) createdGameStateId
       (delete_secret_of (f_rollback_secret env) createdGameStateId
          (delete_hands_of (f_rollback_hands env) createdGameStateId db))"

definition start_hand ::
  "start_env \<Rightarrow> Logic \<Rightarrow> store \<Rightarrow> uuid \<Rightarrow> string option \<Rightarrow> store \<times> response" where
  "start_hand env L db roomId deckSeed =
     (case fetchRoom db roomId of
        None \<Rightarrow> (db, ErrorResponse 404 ''Room not found'')
      | Some room \<Rightarrow>
          if \<not> is_active room \<or> is_paused room
          then (db, ErrorResponse 400 ''Room not active'')
          else (let players = fetchPlayers db roomId in
                if length players < 2
                then (db, ErrorResponse 400 ''Need at least two players to start'')
                else (let d = dealHand L room players deckSeed in
                      case start_hand_try env roomId d db of
                        Inr (gs, db') \<Rightarrow> (db', HandStarted gs (d_deckSeed d))
                      | Inl (e, created, db') \<Rightarrow>
                          ((case created of Some gid \<Rightarrow> rollback env gid db' | None \<Rightarrow> db'),
                           ErrorResponse 400 (thrown_message (s_instanceof_Error env) e)))))"

section \<open>POST /rooms/:roomId/actions\<close>

record ActionPayload =
  seatNumber :: int
  actionType :: ActionType
  req_amount :: "int option"
  authUserId :: "uuid option"
  idempotencyKey :: "string option"

text \<open>\<open>actionSchema\<close>: the fields are typed; an amount, when given, is positive.\<close>

definition actionSchema_safeParse :: "ActionPayload \<Rightarrow> string + ActionPayload" where
  "actionSchema_safeParse body =
     (case req_amount body of
        None \<Rightarrow> Inr body
      | Some a \<Rightarrow> if 0 < a then Inr body else Inl ''Number must be greater than 0'')"

record action_env =
  f_insert_action :: fault
  f_upsert_updated :: fault
  f_update_game_state :: fault
  f_upsert_credit :: fault
  f_insert_result :: fault
  f_delete_game_state :: fault
  a_instanceof_Error :: bool

text \<open>The calls of the showdown evaluation that a request makes, in order.\<close>

datatype EngineCall = Evaluation "(int \<times> card list) list" "card list" "card list"

text \<open>JavaScript truthiness of the two optional fields the handler tests.\<close>

definition truthy_error :: "string option \<Rightarrow> bool" where
  "truthy_error e = (case e of None \<Rightarrow> False | Some m \<Rightarrow> m \<noteq> [])"

definition truthy_pot :: "int option \<Rightarrow> bool" where
  "truthy_pot p = (case p of None \<Rightarrow> False | Some n \<Rightarrow> n \<noteq> 0)"

text \<open>The insert into player_actions: its result is not inspected.\<close>

definition insert_player_action :: "fault \<Rightarrow> PlayerAction \<Rightarrow> store \<Rightarrow> store" where
  "insert_player_action f a db =
     (case f of
        Some e \<Rightarrow> db
      | None \<Rightarrow> db\<lparr>player_actions := player_actions db @ [a]\<rparr>)"

text \<open>
  \<open>playerMap\<close>: a JavaScript \<open>Map\<close> keeps a key at the place of its first insertion
  and the value of its last; rows without an id are skipped.
\<close>

fun playerMap_set ::
  "uuid \<Rightarrow> PartialRoomPlayer \<Rightarrow> (uuid \<times> PartialRoomPlayer) list
     \<Rightarrow> (uuid \<times> PartialRoomPlayer) list" where
  "playerMap_set k v [] = [(k, v)]"
| "playerMap_set k v ((k', v') # m) =
     (if k = k' then (k, v) # m else (k', v') # playerMap_set k v m)"

definition deduplicatedPlayers :: "PartialRoomPlayer list \<Rightarrow> PartialRoomPlayer list" where
  "deduplicatedPlayers us =
     map snd (foldl (\<lambda>m player. case u_id player of
                                  None \<Rightarrow> m
                                | Some i \<Rightarrow> if i \<noteq> [] then playerMap_set i player m else m)
                    [] us)"

definition merge_game_state :: "GameStateRow \<Rightarrow> PartialGameState \<Rightarrow> GameStateRow" where
  "merge_game_state g u =
     g\<lparr> phase := (case ug_phase u of Some v \<Rightarrow> v | None \<Rightarrow> phase g),
        pot_size := (case ug_pot_size u of Some v \<Rightarrow> v | None \<Rightarrow> pot_size g),
        gs_current_bet := (case ug_current_bet u of Some v \<Rightarrow> v | None \<Rightarrow> gs_current_bet g),
        board_state := (case ug_board_state u of Some v \<Rightarrow> v | None \<Rightarrow> board_state g),
        action_history :=
          (case ug_action_history u of Some v \<Rightarrow> v | None \<Rightarrow> action_history g) \<rparr>"

definition update_game_state :: "fault \<Rightarrow> uuid \<Rightarrow> PartialGameState \<Rightarrow> store \<Rightarrow> string + store" where
  "update_game_state f gid u db =
     (case f of
        Some e \<Rightarrow> Inl e
      | None \<Rightarrow>
          Inr (db\<lparr>game_states :=
                    map (\<lambda>g. if gs_id g = gid then merge_game_state g u else g)
                        (game_states db)\<rparr>))"

definition insert_hand_result :: "fault \<Rightarrow> HandResult \<Rightarrow> store \<Rightarrow> string + store" where
  "insert_hand_result f r db =
     (case f of
        Some e \<Rightarrow> Inl e
      | None \<Rightarrow> Inr (db\<lparr>hand_results := hand_results db @ [r]\<rparr>))"

text \<open>The delete of the hand-state row; the secret row goes with it
  (\<open>references public.game_states on delete cascade\<close>).\<close>

definition delete_game_state :: "fault \<Rightarrow> uuid \<Rightarrow> store \<Rightarrow> string + store" where
  "delete_game_state f gid db =
     (case f of
        Some e \<Rightarrow> Inl e
      | None \<Rightarrow>
          Inr (db\<lparr> game_states := filter (\<lambda>g. gs_id g \<noteq> gid) (game_states db),
                   game_state_secrets :=
                     filter (\<lambda>s. s_game_state_id s \<noteq> gid) (game_state_secrets db) \<rparr>))"

text \<open>\<open>mergedPlayers\<close>: each fetched player under the first update that carries its id.\<close>

definition mergedPlayers :: "RoomPlayer list \<Rightarrow> PartialRoomPlayer list \<Rightarrow> RoomPlayer list" where
  "mergedPlayers players updated =
     map (\<lambda>p. case find (\<lambda>u. u_id u = Some (p_id p)) updated of
                 Some u \<Rightarrow> merge_player p u
               | None \<Rightarrow> p) players"

text \<open>\<open>creditUpdates\<close>: one row per payout whose seat is a player's; the others are
  filtered out.\<close>

definition creditUpdates :: "Payout list \<Rightarrow> RoomPlayer list \<Rightarrow> PartialRoomPlayer list" where
  "creditUpdates payouts merged =
     List.map_filter
       (\<lambda>p. case find (\<lambda>pl. seat_number pl = seat p) merged of
               None \<Rightarrow> None
             | Some player \<Rightarrow>
                 Some \<lparr> u_id = Some (p_id player), u_room_id = Some (p_room_id player),
                        u_seat_number = Some (seat_number player),
                        u_auth_user_id = Some (auth_user_id player),
                        u_display_name = Some (display_name player),
                        u_total_buy_in = Some (total_buy_in player),
                        u_chip_stack = Some (chip_stack player + amount p),
                        u_current_bet = None, u_has_folded = None, u_is_all_in = None \<rparr>)
       payouts"

text \<open>\<open>Array.from(new Set(xs))\<close>: the first occurrence of each element, in order.\<close>

definition unique_in_order :: "int list \<Rightarrow> int list" where
  "unique_in_order xs = rev (remdups (rev xs))"

definition activeHands :: "RoomPlayer list \<Rightarrow> PlayerHand list \<Rightarrow> (int \<times> card list) list" where
  "activeHands merged playerHands =
     map (\<lambda>ph. (h_seat_number ph, cards ph))
         (filter (\<lambda>ph. h_seat_number ph \<in> seat_number ` set (filter (\<lambda>p. \<not> has_folded p) merged))
                 playerHands)"

text \<open>
  The writes of the \<open>try\<close> return the store as they leave it and the error they
  throw, if any: the handler has no rollback, so what was written before a throw stays.

  The branch \<open>if (outcome.autoWinners && outcome.potAwarded)\<close> of a completed hand:
  evaluation, payout, credit and the hand-result row.
\<close>

definition credit_payouts ::
  "fault \<Rightarrow> Payout list \<Rightarrow> RoomPlayer list \<Rightarrow> store \<Rightarrow> string + store" where
  "credit_payouts f payouts merged db =
     (if payouts \<noteq> []
      then (let cu = creditUpdates payouts merged
            in if cu \<noteq> [] then upsert_players f cu db else Inr db)
      else Inr db)"

definition hand_result_row ::
  "uuid \<Rightarrow> GameStateRow \<Rightarrow> Outcome \<Rightarrow> int \<Rightarrow> int list \<times> int list \<Rightarrow> HandResult" where
  "hand_result_row roomId gameState outcome potAwarded ws =
     \<lparr> hr_room_id = roomId, hr_hand_number = hand_number gameState,
       final_pot = potAwarded,
       board_a = (case board_state gameState of None \<Rightarrow> None | Some b \<Rightarrow> board1 b),
       board_b = (case board_state gameState of None \<Rightarrow> None | Some b \<Rightarrow> board2 b),
       winners = unique_in_order (fst ws @ snd ws),
       hr_action_history =
         (case ug_action_history (o_updatedGameState outcome) of
            Some h \<Rightarrow> h
          | None \<Rightarrow> action_history gameState) \<rparr>"

definition showdown ::
  "action_env \<Rightarrow> Logic \<Rightarrow> uuid \<Rightarrow> GameStateRow \<Rightarrow> GameStateSecret \<Rightarrow> RoomPlayer list
     \<Rightarrow> Outcome \<Rightarrow> int \<Rightarrow> store \<Rightarrow> store \<times> string option \<times> EngineCall list" where
  "showdown env L roomId gameState secret players outcome potAwarded db =
     (let playerHands = filter (\<lambda>h. h_game_state_id h = gs_id gameState) (player_hands db);
          merged = mergedPlayers players (o_updatedPlayers outcome);
          hands = activeHands merged playerHands;
          calls = [Evaluation hands (full_board1 secret) (full_board2 secret)];
          ws = determineDoubleBoardWinners L hands (full_board1 secret) (full_board2 secret);
          payouts = endOfHandPayout L (fst ws) (snd ws) potAwarded
      in (case credit_payouts (f_upsert_credit env) payouts merged db of
            Inl e \<Rightarrow> (db, Some e, calls)
          | Inr db1 \<Rightarrow>
              (case insert_hand_result (f_insert_result env)
                      (hand_result_row roomId gameState outcome potAwarded ws) db1 of
                 Inl e \<Rightarrow> (db1, Some e, calls)
               | Inr db2 \<Rightarrow> (db2, None, calls))))"

text \<open>\<open>if (outcome.handCompleted)\<close>: the showdown branch, then the delete.\<close>

definition complete_hand ::
  "action_env \<Rightarrow> Logic \<Rightarrow> uuid \<Rightarrow> GameStateRow \<Rightarrow> GameStateSecret \<Rightarrow> RoomPlayer list
     \<Rightarrow> Outcome \<Rightarrow> store \<Rightarrow> store \<times> string option \<times> EngineCall list" where
  "complete_hand env L roomId gameState secret players outcome db =
     (case (if o_autoWinners outcome \<noteq> None \<and> truthy_pot (o_potAwarded outcome)
            then showdown env L roomId gameState secret players outcome
                   (the (o_potAwarded outcome)) db
            else (db, None, [])) of
        (db1, Some e, calls) \<Rightarrow> (db1, Some e, calls)
      | (db1, None, calls) \<Rightarrow>
          (case delete_game_state (f_delete_game_state env) (gs_id gameState) db1 of
             Inl e \<Rightarrow> (db1, Some e, calls)
           | Inr db2 \<Rightarrow> (db2, None, calls)))"

text \<open>The writes of an accepted action, after the row of player_actions.\<close>

definition persist_outcome ::
  "action_env \<Rightarrow> Logic \<Rightarrow> uuid \<Rightarrow> GameStateRow \<Rightarrow> GameStateSecret \<Rightarrow> RoomPlayer list
     \<Rightarrow> Outcome \<Rightarrow> store \<Rightarrow> store \<times> string option \<times> EngineCall list" where
  "persist_outcome env L roomId gameState secret players outcome db =
     (case (if o_updatedPlayers outcome \<noteq> []
            then upsert_players (f_upsert_updated env)
                   (deduplicatedPlayers (o_updatedPlayers outcome)) db
            else Inr db) of
        Inl e \<Rightarrow> (db, Some e, [])
      | Inr db1 \<Rightarrow>
          (case update_game_state (f_update_game_state env) (gs_id gameState)
                  (o_updatedGameState outcome) db1 of
             Inl e \<Rightarrow> (db1, Some e, [])
           | Inr db2 \<Rightarrow>
               if o_handCompleted outcome
               then complete_hand env L roomId gameState secret players outcome db2
               else (db2, None, [])))"

text \<open>The response of an accepted action: 500 with the thrown error, or
  \<open>{ok: true}\<close>, with the merged hand state while the hand goes on.\<close>

definition action_response ::
  "action_env \<Rightarrow> GameStateRow \<Rightarrow> Outcome \<Rightarrow> store \<times> string option \<times> EngineCall list
     \<Rightarrow> store \<times> response \<times> EngineCall list" where
  "action_response env gameState outcome r =
     (case r of
        (db2, Some e, calls) \<Rightarrow>
          (db2, ErrorResponse 500 (thrown_message (a_instanceof_Error env) e), calls)
      | (db2, None, calls) \<Rightarrow>
          (db2,
           ActionDone (if o_handCompleted outcome then None
                       else Some (merge_game_state gameState (o_updatedGameState outcome))),
           calls))"

definition action_row :: "uuid \<Rightarrow> GameStateRow \<Rightarrow> ActionPayload \<Rightarrow> Outcome \<Rightarrow> PlayerAction" where
  "action_row roomId gameState payload outcome =
     \<lparr> a_room_id = roomId, a_game_state_id = gs_id gameState,
       a_seat_number = seatNumber payload, action_type = actionType payload,
       a_amount = req_amount payload,
       processed = (\<not> truthy_error (o_error outcome)),
       error_message = o_error outcome,
       a_auth_user_id = authUserId payload \<rparr>"

text \<open>What the handler does with the outcome of \<open>applyAction\<close>: the row of
  player_actions, then the rejection, or the writes.\<close>

definition apply_outcome ::
  "action_env \<Rightarrow> Logic \<Rightarrow> uuid \<Rightarrow> ActionPayload \<Rightarrow> GameStateRow \<Rightarrow> GameStateSecret
     \<Rightarrow> RoomPlayer list \<Rightarrow> Outcome \<Rightarrow> store \<Rightarrow> store \<times> response \<times> EngineCall list" where
  "apply_outcome env L roomId payload gameState secret players outcome db =
     (let db1 = insert_player_action (f_insert_action env)
                  (action_row roomId gameState payload outcome) db
      in if truthy_error (o_error outcome)
         then (db1, ErrorResponse 400 (the (o_error outcome)), [])
         else action_response env gameState outcome
                (persist_outcome env L roomId gameState secret players outcome db1))"

definition action_context ::
  "Room \<Rightarrow> RoomPlayer list \<Rightarrow> GameStateRow \<Rightarrow> GameStateSecret \<Rightarrow> ActionContext" where
  "action_context room players gameState secret =
     \<lparr> c_room = room, c_players = players, c_gameState = gameState,
       c_fullBoard1 = full_board1 secret, c_fullBoard2 = full_board2 secret \<rparr>"

definition actions ::
  "action_env \<Rightarrow> Logic \<Rightarrow> store \<Rightarrow> uuid \<Rightarrow> ActionPayload
     \<Rightarrow> store \<times> response \<times> EngineCall list" where
  "actions env L db roomId body =
     (case actionSchema_safeParse body of
        Inl e \<Rightarrow> (db, ErrorResponse 400 e, [])
      | Inr payload \<Rightarrow>
     (case fetchRoom db roomId of
        None \<Rightarrow> (db, ErrorResponse 404 ''Room not found'', [])
      | Some room \<Rightarrow>
     (case fetchLatestGameState db roomId of
        None \<Rightarrow> (db, ErrorResponse 400 ''No active hand'', [])
      | Some gameState \<Rightarrow>
     (case fetchGameStateSecret db (gs_id gameState) of
        None \<Rightarrow> (db, ErrorResponse 500 ''Missing game secrets'', [])
      | Some secret \<Rightarrow>
          (let players = fetchPlayers db roomId;
               outcome = applyAction L (action_context room players gameState secret)
                           (seatNumber payload) (actionType payload) (req_amount payload)
           in apply_outcome env L roomId payload gameState secret players outcome db)))))"

section \<open>The payout calculator\<close>

text \<open>
  Modelled from the spec: \<open>endOfHandPayout\<close> of logic.js is missing from the sources;
  only its call \<open>endOfHandPayout(board1Winners, board2Winners, outcome.potAwarded)\<close> is
  there. The definitions of this section follow section 4.5 of the specification: a
  single-board pot is split evenly among its winners; a double-board pot is split
  50/50 between the boards before each half is split among that board's winners; the
  odd chips of a split go one per seat to the first winners in order; the output maps
  each seat to the amount credited to it.

  The calculator's interface has no button, so the order of a winner list is taken to
  be the table's order clockwise from the seat after the button. The specification
  does not say which board takes the odd chip of an odd double-board pot: it goes to
  the first board here.
\<close>

fun split_pot :: "int \<Rightarrow> nat \<Rightarrow> int list \<Rightarrow> (int \<times> int) list" where
  "split_pot share extra [] = []"
| "split_pot share extra (s # ss) =
     (s, share + (if 0 < extra then 1 else 0)) # split_pot share (extra - 1) ss"

definition board_payout :: "int \<Rightarrow> int list \<Rightarrow> (int \<times> int) list" where
  "board_payout pot ws =
     (let seats = unique_in_order ws; n = int (length seats)
      in split_pot (pot div n) (nat (pot mod n)) seats)"

definition credited :: "(int \<times> int) list \<Rightarrow> int \<Rightarrow> int" where
  "credited m s = (case map_of m s of None \<Rightarrow> 0 | Some a \<Rightarrow> a)"

definition payout :: "int list \<Rightarrow> int list option \<Rightarrow> int \<Rightarrow> Payout list" where
  "payout board1Winners board2Winners potAwarded =
     (case board2Winners of
        None \<Rightarrow>
          map (\<lambda>(s, a). \<lparr> seat = s, amount = a \<rparr>) (board_payout potAwarded board1Winners)
      | Some ws2 \<Rightarrow>
          (let m1 = board_payout (potAwarded - potAwarded div 2) board1Winners;
               m2 = board_payout (potAwarded div 2) ws2
           in map (\<lambda>s. \<lparr> seat = s, amount = credited m1 s + credited m2 s \<rparr>)
                  (unique_in_order (board1Winners @ ws2))))"

section \<open>A two-seat table\<close>

text \<open>
  Concrete rows on which the handlers are run: a room with blinds 1/2, two seated
  players with 100 chips each, and the hand dealt to them. The functions of logic.js
  are stood in for by the results they give on this table: the deal below, a fold that
  ends the hand in favour of the other seat, every other action refused as out of turn,
  and an evaluation in which every hand it is given wins both boards.
\<close>

definition room1 :: Room where
  "room1 = \<lparr> r_id = ''r1'', game_mode = ''double_board_bomb_pot_plo'', small_blind = 1,
             big_blind = 2, is_active = True, is_paused = False,
             current_hand_number = 0, button_seat = None \<rparr>"

definition alice :: RoomPlayer where
  "alice = \<lparr> p_id = ''p1'', p_room_id = ''r1'', seat_number = 1, auth_user_id = None,
             display_name = ''alice'', total_buy_in = 100, chip_stack = 100,
             current_bet = 0, has_folded = False, is_all_in = False,
             is_spectating = False \<rparr>"

definition bob :: RoomPlayer where
  "bob = \<lparr> p_id = ''p2'', p_room_id = ''r1'', seat_number = 2, auth_user_id = None,
           display_name = ''bob'', total_buy_in = 100, chip_stack = 100,
           current_bet = 0, has_folded = False, is_all_in = False,
           is_spectating = False \<rparr>"

definition lobby :: store where
  "lobby = \<lparr> rooms = [room1], room_players = [alice, bob], game_states = [],
             game_state_secrets = [], player_hands = [], player_actions = [],
             hand_results = [] \<rparr>"

definition no_update :: PartialRoomPlayer where
  "no_update = \<lparr> u_id = None, u_room_id = None, u_seat_number = None,
                 u_auth_user_id = None, u_display_name = None, u_total_buy_in = None,
                 u_chip_stack = None, u_current_bet = None, u_has_folded = None,
                 u_is_all_in = None \<rparr>"

definition hand1 :: GameStateRow where
  "hand1 = \<lparr> gs_id = [], gs_room_id = ''r1'', hand_number = 1, gs_button_seat = 1,
             phase = ''preflop'', pot_size = 3, gs_current_bet = 2,
             board_state = Some \<lparr> board1 = Some [], board2 = Some [] \<rparr>,
             action_history = [] \<rparr>"

definition deal1 :: DealResult where
  "deal1 = \<lparr> d_gameState = hand1,
             d_playerHands =
               [\<lparr> dh_seat_number = 1, dh_cards = [''As'', ''Ks'', ''Qs'', ''Js''],
                  dh_auth_user_id = None \<rparr>,
                \<lparr> dh_seat_number = 2, dh_cards = [''2c'', ''7d'', ''8h'', ''9s''],
                  dh_auth_user_id = None \<rparr>],
             d_updatedPlayers =
               [no_update\<lparr> u_id := Some ''p1'', u_chip_stack := Some 99,
                           u_current_bet := Some 1 \<rparr>,
                no_update\<lparr> u_id := Some ''p2'', u_chip_stack := Some 98,
                           u_current_bet := Some 2 \<rparr>],
             d_deckSeed = ''seed-1'',
             d_fullBoard1 = [''Ah'', ''Kh'', ''Qh'', ''Jh'', ''Th''],
             d_fullBoard2 = [''2d'', ''3d'', ''4d'', ''5d'', ''6d''] \<rparr>"

definition no_change :: PartialGameState where
  "no_change = \<lparr> ug_phase = None, ug_pot_size = None, ug_current_bet = None,
                 ug_board_state = None, ug_action_history = None \<rparr>"

definition table_applyAction :: "ActionContext \<Rightarrow> int \<Rightarrow> ActionType \<Rightarrow> int option \<Rightarrow> Outcome" where
  "table_applyAction ctx s t a =
     (if t = Fold
      then \<lparr> o_error = None,
             o_updatedPlayers =
               map (\<lambda>p. no_update\<lparr> u_id := Some (p_id p), u_has_folded := Some True \<rparr>)
                   (filter (\<lambda>p. seat_number p = s) (c_players ctx)),
             o_updatedGameState = no_change\<lparr> ug_phase := Some ''complete'' \<rparr>,
             o_handCompleted = True,
             o_autoWinners =
               Some (map seat_number (filter (\<lambda>p. seat_number p \<noteq> s) (c_players ctx))),
             o_potAwarded = Some (pot_size (c_gameState ctx)) \<rparr>
      else \<lparr> o_error = Some ''Not your turn'', o_updatedPlayers = [],
             o_updatedGameState = no_change, o_handCompleted = False,
             o_autoWinners = None, o_potAwarded = None \<rparr>)"

definition table_logic :: Logic where
  "table_logic =
     \<lparr> dealHand = (\<lambda>room players seed. deal1),
       applyAction = table_applyAction,
       determineDoubleBoardWinners = (\<lambda>hands b1 b2. (map fst hands, map fst hands)),
       endOfHandPayout = (\<lambda>ws1 ws2 pot. payout ws1 (Some ws2) pot) \<rparr>"

definition no_faults :: start_env where
  "no_faults = \<lparr> new_game_state_id = ''g1'', f_insert_game_state = None,
                 f_insert_secret = None, f_insert_hands = None, f_upsert_players = None,
                 f_update_room = None, f_rollback_hands = None, f_rollback_secret = None,
                 f_rollback_game_state = None, s_instanceof_Error = True \<rparr>"

definition no_action_faults :: action_env where
  "no_action_faults = \<lparr> f_insert_action = None, f_upsert_updated = None,
                        f_update_game_state = None, f_upsert_credit = None,
                        f_insert_result = None, f_delete_game_state = None,
                        a_instanceof_Error = True \<rparr>"

text \<open>The store after the hand was dealt.\<close>

definition dealt :: store where
  "dealt = fst (start_hand no_faults table_logic lobby ''r1'' None)"

text \<open>A second deal at that table whose hole-card insert fails.\<close>

definition hands_fail :: start_env where
  "hands_fail = no_faults \<lparr> new_game_state_id := ''g2'', f_insert_hands := Some ''timeout'',
                            s_instanceof_Error := False \<rparr>"

text \<open>A deal whose player update fails, at a moment when the deletes fail as well.\<close>

definition store_down :: start_env where
  "store_down = no_faults \<lparr> f_upsert_players := Some ''timeout'',
                            f_rollback_hands := Some ''timeout'',
                            f_rollback_secret := Some ''timeout'',
                            f_rollback_game_state := Some ''timeout'',
                            s_instanceof_Error := False \<rparr>"

section \<open>Properties of start-hand\<close>

lemma upsert_players_isl_cong:
  "room_players db' = room_players db \<Longrightarrow>
   isl (upsert_players f us db') = isl (upsert_players f us db)"
  by (simp add: upsert_players_def split: option.splits)

lemma upsert_players_other_tables:
  "upsert_players f us db = Inr db' \<Longrightarrow>
   rooms db' = rooms db \<and> game_states db' = game_states db \<and>
   game_state_secrets db' = game_state_secrets db \<and> player_hands db' = player_hands db \<and>
   player_actions db' = player_actions db \<and> hand_results db' = hand_results db"
  by (auto simp: upsert_players_def split: option.splits if_splits)

definition created_rows_only :: "uuid \<Rightarrow> store \<Rightarrow> store \<Rightarrow> bool" where
  "created_rows_only new_id db db' \<longleftrightarrow>
     filter (\<lambda>g. gs_id g \<noteq> new_id) (game_states db')
       = filter (\<lambda>g. gs_id g \<noteq> new_id) (game_states db)
     \<and> filter (\<lambda>s. s_game_state_id s \<noteq> new_id) (game_state_secrets db')
       = filter (\<lambda>s. s_game_state_id s \<noteq> new_id) (game_state_secrets db)
     \<and> filter (\<lambda>h. h_game_state_id h \<noteq> new_id) (player_hands db')
       = filter (\<lambda>h. h_game_state_id h \<noteq> new_id) (player_hands db)
     \<and> rooms db' = rooms db \<and> room_players db' = room_players db
     \<and> player_actions db' = player_actions db \<and> hand_results db' = hand_results db"

lemma start_hand_try_thrown:
  assumes created: "f_insert_game_state env = None"
      and fails: "f_insert_secret env \<noteq> None
                  \<or> (d_playerHands d \<noteq> [] \<and> f_insert_hands env \<noteq> None)
                  \<or> (d_updatedPlayers d \<noteq> [] \<and>
                      isl (upsert_players (f_upsert_players env) (d_updatedPlayers d) db))"
  shows "\<exists>e db'. start_hand_try env roomId d db = Inl (e, Some (new_game_state_id env), db')
           \<and> created_rows_only (new_game_state_id env) db db'"
  using assms
  apply (simp add: start_hand_try_def insert_game_state_def insert_secret_def insert_player_hands_def Let_def
        split: option.splits sum.splits prod.splits)
  apply (auto simp: created_rows_only_def upsert_players_def comp_def split: option.splits if_splits)
  done

lemma rollback_tables:
  assumes "f_rollback_hands env = None" "f_rollback_secret env = None"
          "f_rollback_game_state env = None"
  shows "game_states (rollback env gid db) = filter (\<lambda>g. gs_id g \<noteq> gid) (game_states db)"
    and "game_state_secrets (rollback env gid db)
           = filter (\<lambda>s. s_game_state_id s \<noteq> gid) (game_state_secrets db)"
    and "player_hands (rollback env gid db)
           = filter (\<lambda>h. h_game_state_id h \<noteq> gid) (player_hands db)"
    and "rooms (rollback env gid db) = rooms db"
    and "room_players (rollback env gid db) = room_players db"
    and "player_actions (rollback env gid db) = player_actions db"
    and "hand_results (rollback env gid db) = hand_results db"
  using assms
  by (simp_all add: rollback_def delete_created_game_state_def delete_secret_of_def
                    delete_hands_of_def)

lemma filter_fresh:
  "k \<notin> f ` set xs \<Longrightarrow> filter (\<lambda>x. f x \<noteq> k) xs = xs"
  by (rule filter_True) auto

lemma filter_removes:
  "k \<notin> f ` set (filter (\<lambda>x. f x \<noteq> k) xs)"
  by auto

lemma hands_fail_run:
  "start_hand hands_fail table_logic dealt ''r1'' None
     = (dealt, ErrorResponse 400 ''Unknown error'')"
  by code_simp

lemma dealt_ids:
  "map gs_id (game_states dealt) = [''g1'']"
  "map s_game_state_id (game_state_secrets dealt) = [''g1'']"
  "map h_game_state_id (player_hands dealt) = [''g1'', ''g1'']"
  by code_simp+

lemma store_down_run:
  "snd (start_hand store_down table_logic lobby ''r1'' None) = ErrorResponse 400 ''Unknown error''"
  "map gs_id (game_states (fst (start_hand store_down table_logic lobby ''r1'' None))) = [''g1'']"
  "map s_game_state_id (game_state_secrets (fst (start_hand store_down table_logic lobby ''r1'' None))) = [''g1'']"
  "map h_game_state_id (player_hands (fst (start_hand store_down table_logic lobby ''r1'' None))) = [''g1'', ''g1'']"
  "game_states lobby = []" "game_state_secrets lobby = []" "player_hands lobby = []"
  by code_simp+

text \<open>
  Claim C5 (deal atomicity), as the handler has it. Once the hand-state row is created,
  a failure of any later write of the deal (the secret row, the hole-card rows or the
  player updates) makes the handler answer 400; when the three deletes of the \<open>catch\<close>
  take effect, no row of game_states, game_state_secrets or player_hands is left under
  the created id, and every other row of every table is as the request found it: the
  store is the one before the request when the created id is new to it. The handler
  does not inspect the results of the three deletes.
\<close>

theorem deal_rolled_back:
  assumes room: "fetchRoom db roomId = Some room" "is_active room" "\<not> is_paused room"
      and players: "2 \<le> length (fetchPlayers db roomId)"
      and d: "d = dealHand L room (fetchPlayers db roomId) deckSeed"
      and created: "f_insert_game_state env = None"
      and fails: "f_insert_secret env \<noteq> None
                  \<or> (d_playerHands d \<noteq> [] \<and> f_insert_hands env \<noteq> None)
                  \<or> (d_updatedPlayers d \<noteq> [] \<and>
                      isl (upsert_players (f_upsert_players env) (d_updatedPlayers d) db))"
      and deleted: "f_rollback_hands env = None" "f_rollback_secret env = None"
                   "f_rollback_game_state env = None"
      and after: "db' = fst (start_hand env L db roomId deckSeed)"
  shows "(\<exists>e. snd (start_hand env L db roomId deckSeed) = ErrorResponse 400 e)
         \<and> new_game_state_id env \<notin> gs_id ` set (game_states db')
         \<and> new_game_state_id env \<notin> s_game_state_id ` set (game_state_secrets db')
         \<and> new_game_state_id env \<notin> h_game_state_id ` set (player_hands db')
         \<and> game_states db' = filter (\<lambda>g. gs_id g \<noteq> new_game_state_id env) (game_states db)
         \<and> game_state_secrets db'
             = filter (\<lambda>s. s_game_state_id s \<noteq> new_game_state_id env) (game_state_secrets db)
         \<and> player_hands db'
             = filter (\<lambda>h. h_game_state_id h \<noteq> new_game_state_id env) (player_hands db)
         \<and> rooms db' = rooms db \<and> room_players db' = room_players db
         \<and> player_actions db' = player_actions db \<and> hand_results db' = hand_results db
         \<and> (new_game_state_id env \<notin> gs_id ` set (game_states db)
              \<and> new_game_state_id env \<notin> s_game_state_id ` set (game_state_secrets db)
              \<and> new_game_state_id env \<notin> h_game_state_id ` set (player_hands db)
              \<longrightarrow> db' = db)"
proof -
  let ?new = "new_game_state_id env"
  obtain e db1 where t: "start_hand_try env roomId d db = Inl (e, Some ?new, db1)"
    and c: "created_rows_only ?new db db1"
    using start_hand_try_thrown [OF created fails] by blast
  have s: "start_hand env L db roomId deckSeed
             = (rollback env ?new db1,
                ErrorResponse 400 (thrown_message (s_instanceof_Error env) e))"
    using room players t d by (simp add: start_hand_def Let_def)
  have a: "db' = rollback env ?new db1" unfolding after s by simp
  note r = rollback_tables [OF deleted, of ?new db1]
  have g: "game_states db' = filter (\<lambda>g. gs_id g \<noteq> ?new) (game_states db)"
    unfolding a r using c unfolding created_rows_only_def by simp
  have x: "game_state_secrets db'
             = filter (\<lambda>s. s_game_state_id s \<noteq> ?new) (game_state_secrets db)"
    unfolding a r using c unfolding created_rows_only_def by simp
  have h: "player_hands db' = filter (\<lambda>h. h_game_state_id h \<noteq> ?new) (player_hands db)"
    unfolding a r using c unfolding created_rows_only_def by simp
  have o: "rooms db' = rooms db" "room_players db' = room_players db"
          "player_actions db' = player_actions db" "hand_results db' = hand_results db"
    unfolding a r using c unfolding created_rows_only_def by simp_all
  have n: "?new \<notin> gs_id ` set (game_states db')"
          "?new \<notin> s_game_state_id ` set (game_state_secrets db')"
          "?new \<notin> h_game_state_id ` set (player_hands db')"
    unfolding g x h by (rule filter_removes)+
  have f: "db' = db"
    if "?new \<notin> gs_id ` set (game_states db)"
       "?new \<notin> s_game_state_id ` set (game_state_secrets db)"
       "?new \<notin> h_game_state_id ` set (player_hands db)"
  proof -
    have "game_states db' = game_states db" "game_state_secrets db' = game_state_secrets db"
         "player_hands db' = player_hands db"
      unfolding g x h
      by (rule filter_fresh [OF that(1)], rule filter_fresh [OF that(2)],
          rule filter_fresh [OF that(3)])
    then show ?thesis using o by (intro store.equality) simp_all
  qed
  have m: "\<exists>e. snd (start_hand env L db roomId deckSeed) = ErrorResponse 400 e"
    unfolding s by simp
  show ?thesis
    using m n g x h o f by blast
qed

theorem deal_rolled_back_witness:
  "start_hand hands_fail table_logic dealt ''r1'' None
     = (dealt, ErrorResponse 400 ''Unknown error'')
   \<and> map gs_id (game_states dealt) = [''g1'']
   \<and> map s_game_state_id (game_state_secrets dealt) = [''g1'']
   \<and> map h_game_state_id (player_hands dealt) = [''g1'', ''g1'']
   \<and> ''g2'' \<notin> gs_id ` set (game_states (fst (start_hand hands_fail table_logic dealt ''r1'' None)))
   \<and> rooms (fst (start_hand hands_fail table_logic dealt ''r1'' None)) = rooms dealt"
proof -
  let ?room = "room1\<lparr>current_hand_number := 1, button_seat := Some 1\<rparr>"
  have 1: "fetchRoom dealt ''r1'' = Some ?room" by code_simp
  have 2: "is_active ?room" "\<not> is_paused ?room" by (simp_all add: room1_def)
  have 3: "2 \<le> length (fetchPlayers dealt ''r1'')" by code_simp
  have 4: "deal1 = dealHand table_logic ?room (fetchPlayers dealt ''r1'') None"
    by (simp add: table_logic_def)
  have 5: "f_insert_game_state hands_fail = None"
    by (simp add: hands_fail_def no_faults_def)
  have 6: "f_insert_secret hands_fail \<noteq> None
           \<or> (d_playerHands deal1 \<noteq> [] \<and> f_insert_hands hands_fail \<noteq> None)
           \<or> (d_updatedPlayers deal1 \<noteq> [] \<and>
                isl (upsert_players (f_upsert_players hands_fail) (d_updatedPlayers deal1) dealt))"
    by (simp add: deal1_def hands_fail_def no_faults_def)
  have 7: "f_rollback_hands hands_fail = None" "f_rollback_secret hands_fail = None"
          "f_rollback_game_state hands_fail = None"
    by (simp_all add: hands_fail_def no_faults_def)
  have 8: "new_game_state_id hands_fail = ''g2''"
    by (simp add: hands_fail_def no_faults_def)
  note t = deal_rolled_back [OF 1 2 3 4 5 6 7 refl, unfolded 8]
  have a: "''g2'' \<notin> gs_id ` set (game_states (fst (start_hand hands_fail table_logic dealt ''r1'' None)))"
    by (rule t [THEN conjunct2, THEN conjunct1])
  have b: "rooms (fst (start_hand hands_fail table_logic dealt ''r1'' None)) = rooms dealt"
    by (rule t [THEN conjunct2, THEN conjunct2, THEN conjunct2, THEN conjunct2, THEN conjunct2,
                THEN conjunct2, THEN conjunct2, THEN conjunct1])
  show ?thesis using a b hands_fail_run dealt_ids by blast
qed

theorem deal_not_rolled_back_counterexample:
  "f_insert_game_state store_down = None
   \<and> f_upsert_players store_down = Some ''timeout''
   \<and> game_states lobby = [] \<and> game_state_secrets lobby = [] \<and> player_hands lobby = []
   \<and> snd (start_hand store_down table_logic lobby ''r1'' None)
       = ErrorResponse 400 ''Unknown error''
   \<and> map gs_id (game_states (fst (start_hand store_down table_logic lobby ''r1'' None)))
       = [''g1'']
   \<and> map s_game_state_id
         (game_state_secrets (fst (start_hand store_down table_logic lobby ''r1'' None)))
       = [''g1'']
   \<and> map h_game_state_id
         (player_hands (fst (start_hand store_down table_logic lobby ''r1'' None)))
       = [''g1'', ''g1'']"
proof -
  have "f_insert_game_state store_down = None" "f_upsert_players store_down = Some ''timeout''"
    by (simp_all add: store_down_def no_faults_def)
  then show ?thesis using store_down_run by blast
qed

text \<open>
  Claim C8 (secret confinement). The claim does not hold of the start-hand handler:
  whenever a deal succeeds, the deck seed in the 201 response is the \<open>deck_seed\<close> of the
  secret row stored for the returned hand state. The migration that creates
  game_state_secrets says the table keeps ``full board and deck seed hidden from
  clients''; the response of line 223 sends the seed to the caller.
\<close>

theorem deal_returns_seed:
  assumes "start_hand env L db roomId deckSeed = (db', HandStarted gs seed)"
  shows "\<exists>s \<in> set (game_state_secrets db'). s_game_state_id s = gs_id gs \<and> deck_seed s = seed"
  using assms
  apply (simp add: start_hand_def Let_def split: option.splits if_splits sum.splits prod.splits)
  apply (auto simp: start_hand_try_def insert_game_state_def insert_secret_def insert_player_hands_def
       update_room_after_deal_def Let_def
       split: option.splits if_splits sum.splits prod.splits dest!: upsert_players_other_tables)
  done

theorem deal_returns_seed_witness:
  "start_hand no_faults table_logic lobby ''r1'' None = (dealt, HandStarted (hand1\<lparr>gs_id := ''g1''\<rparr>) ''seed-1'')
   \<and> map deck_seed (game_state_secrets dealt) = [''seed-1'']"
proof -
  have 1: "start_hand no_faults table_logic lobby ''r1'' None = (dealt, HandStarted (hand1\<lparr>gs_id := ''g1''\<rparr>) ''seed-1'')"
    by (simp add: dealt_def start_hand_def start_hand_try_def fetchRoom_def fetchPlayers_def lobby_def room1_def
      alice_def bob_def table_logic_def deal1_def no_faults_def insert_game_state_def insert_secret_def
      insert_player_hands_def upsert_players_def update_room_after_deal_def merge_player_def no_update_def
      List.map_filter_def hand1_def Let_def)
  have 2: "map deck_seed (game_state_secrets dealt) = [''seed-1'']"
    by (simp add: dealt_def start_hand_def start_hand_try_def fetchRoom_def fetchPlayers_def lobby_def room1_def
      alice_def bob_def table_logic_def deal1_def no_faults_def insert_game_state_def insert_secret_def
      insert_player_hands_def upsert_players_def update_room_after_deal_def merge_player_def no_update_def
      List.map_filter_def hand1_def Let_def)
  show ?thesis using deal_returns_seed [OF 1] 1 2 by simp
qed

section \<open>Properties of the action handler\<close>

definition hand_untouched :: "store \<Rightarrow> store \<Rightarrow> bool" where
  "hand_untouched db db' =
     (game_states db' = game_states db \<and> room_players db' = room_players db \<and>
      rooms db' = rooms db \<and> game_state_secrets db' = game_state_secrets db \<and>
      player_hands db' = player_hands db \<and> hand_results db' = hand_results db)"

definition fold_request :: ActionPayload where
  "fold_request = \<lparr> seatNumber = 1, actionType = Fold, req_amount = None, authUserId = None,
                    idempotencyKey = Some ''k1'' \<rparr>"

definition check_request :: ActionPayload where
  "check_request = \<lparr> seatNumber = 1, actionType = Check, req_amount = None,
                     authUserId = None, idempotencyKey = Some ''k2'' \<rparr>"

definition after_fold :: store where
  "after_fold = fst (actions no_action_faults table_logic dealt ''r1'' fold_request)"

lemma latest_mem: "latest xs = Some g \<Longrightarrow> g \<in> set xs"
  by (induction xs arbitrary: g) (auto split: option.splits if_splits)

lemma fetchLatestGameState_mem:
  "fetchLatestGameState db roomId = Some g \<Longrightarrow> g \<in> set (game_states db) \<and> gs_room_id g = roomId"
  by (auto simp: fetchLatestGameState_def dest: latest_mem)

lemma merge_game_state_ids [simp]:
  "gs_id (merge_game_state g u) = gs_id g" "gs_room_id (merge_game_state g u) = gs_room_id g"
  by (simp_all add: merge_game_state_def)

lemma credit_payouts_other_tables:
  "credit_payouts f payouts merged db = Inr db' \<Longrightarrow>
   rooms db' = rooms db \<and> game_states db' = game_states db \<and>
   game_state_secrets db' = game_state_secrets db \<and> player_hands db' = player_hands db \<and>
   player_actions db' = player_actions db \<and> hand_results db' = hand_results db"
  unfolding credit_payouts_def Let_def
  by (auto split: if_splits dest!: upsert_players_other_tables)

lemma insert_hand_result_tables:
  "insert_hand_result f r db = Inr db' \<Longrightarrow>
   rooms db' = rooms db \<and> game_states db' = game_states db \<and>
   game_state_secrets db' = game_state_secrets db \<and> player_hands db' = player_hands db \<and>
   player_actions db' = player_actions db \<and> room_players db' = room_players db"
  by (auto simp: insert_hand_result_def split: option.splits)

lemma showdown_game_states:
  assumes "showdown env L roomId gameState secret players outcome pot db = (db', r, calls)"
  shows "game_states db' = game_states db"
proof -
  let ?merged = "mergedPlayers players (o_updatedPlayers outcome)"
  let ?hands = "activeHands ?merged
      (filter (\<lambda>h. h_game_state_id h = gs_id gameState) (player_hands db))"
  let ?ws = "determineDoubleBoardWinners L ?hands (full_board1 secret) (full_board2 secret)"
  let ?c = "credit_payouts (f_upsert_credit env)
              (endOfHandPayout L (fst ?ws) (snd ?ws) pot) ?merged db"
  show ?thesis
  proof (cases ?c)
    case (Inl e)
    then show ?thesis using assms by (simp add: showdown_def Let_def)
  next
    case (Inr db1)
    note c = credit_payouts_other_tables [OF Inr]
    show ?thesis
    proof (cases "insert_hand_result (f_insert_result env)
                    (hand_result_row roomId gameState outcome pot ?ws) db1")
      case (Inl e)
      then show ?thesis using assms Inr c by (simp add: showdown_def Let_def)
    next
      case (Inr db2)
      note i = insert_hand_result_tables [OF Inr]
      show ?thesis using assms \<open>?c = Inr db1\<close> Inr c i by (simp add: showdown_def Let_def)
    qed
  qed
qed

lemma complete_hand_game_states:
  assumes "complete_hand env L roomId gameState secret players outcome db = (db', None, calls)"
  shows "game_states db' = filter (\<lambda>g. gs_id g \<noteq> gs_id gameState) (game_states db)"
proof -
  obtain db1 r c where s:
    "(if o_autoWinners outcome \<noteq> None \<and> truthy_pot (o_potAwarded outcome)
      then showdown env L roomId gameState secret players outcome (the (o_potAwarded outcome)) db
      else (db, None, [])) = (db1, r, c)"
    by (metis prod_cases3)
  have g1: "game_states db1 = game_states db"
    using s showdown_game_states by (auto split: if_splits)
  show ?thesis
    using assms s g1
    by (cases r; cases "delete_game_state (f_delete_game_state env) (gs_id gameState) db1")
       (auto simp: complete_hand_def delete_game_state_def split: option.splits)
qed

lemma update_game_state_rows:
  "update_game_state f gid u db = Inr db' \<Longrightarrow>
   game_states db' = map (\<lambda>g. if gs_id g = gid then merge_game_state g u else g) (game_states db)"
  by (auto simp: update_game_state_def split: option.splits)

lemma persist_outcome_game_states:
  assumes "persist_outcome env L roomId gameState secret players outcome db = (db', None, calls)"
  shows "game_states db' =
     (if o_handCompleted outcome
      then filter (\<lambda>g. gs_id g \<noteq> gs_id gameState)
             (map (\<lambda>g. if gs_id g = gs_id gameState
                       then merge_game_state g (o_updatedGameState outcome) else g)
                  (game_states db))
      else map (\<lambda>g. if gs_id g = gs_id gameState
                     then merge_game_state g (o_updatedGameState outcome) else g)
               (game_states db))"
proof -
  let ?u = "if o_updatedPlayers outcome \<noteq> []
            then upsert_players (f_upsert_updated env)
                   (deduplicatedPlayers (o_updatedPlayers outcome)) db
            else Inr db"
  show ?thesis
  proof (cases ?u)
    case (Inl e)
    then show ?thesis using assms by (simp add: persist_outcome_def)
  next
    case (Inr db1)
    then have g1: "game_states db1 = game_states db"
      by (auto split: if_splits dest: upsert_players_other_tables)
    show ?thesis
    proof (cases "update_game_state (f_update_game_state env) (gs_id gameState)
                    (o_updatedGameState outcome) db1")
      case (Inl e)
      then show ?thesis using assms \<open>?u = Inr db1\<close> by (simp add: persist_outcome_def)
    next
      case (Inr db2)
      note rows = update_game_state_rows [OF Inr]
      have po: "persist_outcome env L roomId gameState secret players outcome db
                  = (if o_handCompleted outcome
                     then complete_hand env L roomId gameState secret players outcome db2
                     else (db2, None, []))"
        using \<open>?u = Inr db1\<close> Inr by (simp add: persist_outcome_def)
      show ?thesis
      proof (cases "o_handCompleted outcome")
        case True
        then have "complete_hand env L roomId gameState secret players outcome db2
                     = (db', None, calls)"
          using assms po by simp
        from complete_hand_game_states [OF this] show ?thesis
          using True rows g1 by simp
      next
        case False
        then have "db' = db2" using assms po by simp
        then show ?thesis using False rows g1 by simp
      qed
    qed
  qed
qed

definition requested_outcome ::
  "Logic \<Rightarrow> store \<Rightarrow> uuid \<Rightarrow> Room \<Rightarrow> GameStateRow \<Rightarrow> GameStateSecret \<Rightarrow> ActionPayload
     \<Rightarrow> Outcome" where
  "requested_outcome L db roomId room gameState secret payload =
     applyAction L (action_context room (fetchPlayers db roomId) gameState secret)
       (seatNumber payload) (actionType payload) (req_amount payload)"

lemma actions_reached:
  assumes "actionSchema_safeParse body = Inr payload"
    and "fetchRoom db roomId = Some room"
    and "fetchLatestGameState db roomId = Some gameState"
    and "fetchGameStateSecret db (gs_id gameState) = Some secret"
  shows "actions env L db roomId body =
           apply_outcome env L roomId payload gameState secret (fetchPlayers db roomId)
             (requested_outcome L db roomId room gameState secret payload) db"
  using assms by (simp add: actions_def requested_outcome_def Let_def)

lemma insert_player_action_tables:
  "game_states (insert_player_action f a db) = game_states db"
  "room_players (insert_player_action f a db) = room_players db"
  "player_hands (insert_player_action f a db) = player_hands db"
  "game_state_secrets (insert_player_action f a db) = game_state_secrets db"
  "rooms (insert_player_action f a db) = rooms db"
  "hand_results (insert_player_action f a db) = hand_results db"
  by (simp_all add: insert_player_action_def split: option.splits)

lemma apply_outcome_rejected:
  assumes "o_error outcome = Some reason" "reason \<noteq> []"
  shows "apply_outcome env L roomId payload gameState secret players outcome db =
           (insert_player_action (f_insert_action env)
              (action_row roomId gameState payload outcome) db,
            ErrorResponse 400 reason, [])"
  using assms by (simp add: apply_outcome_def truthy_error_def Let_def)

lemma apply_outcome_done:
  assumes "apply_outcome env L roomId payload gameState secret players outcome db
             = (db', ActionDone g, calls)"
  shows "persist_outcome env L roomId gameState secret players outcome
           (insert_player_action (f_insert_action env)
              (action_row roomId gameState payload outcome) db) = (db', None, calls)
         \<and> g = (if o_handCompleted outcome then None
                else Some (merge_game_state gameState (o_updatedGameState outcome)))
         \<and> \<not> truthy_error (o_error outcome)"
proof -
  obtain db2 r c where p:
    "persist_outcome env L roomId gameState secret players outcome
       (insert_player_action (f_insert_action env)
          (action_row roomId gameState payload outcome) db) = (db2, r, c)"
    by (metis prod_cases3)
  show ?thesis
  proof (cases "truthy_error (o_error outcome)")
    case True
    then show ?thesis using assms by (simp add: apply_outcome_def Let_def)
  next
    case False
    then show ?thesis
      using assms p by (cases r) (simp_all add: apply_outcome_def Let_def action_response_def)
  qed
qed

lemma apply_outcome_error:
  assumes "apply_outcome env L roomId payload gameState secret players outcome db
             = (db', ErrorResponse code msg, calls)" "code \<noteq> 500"
  shows "db' = insert_player_action (f_insert_action env)
                 (action_row roomId gameState payload outcome) db
         \<and> calls = [] \<and> truthy_error (o_error outcome)"
proof -
  obtain db2 r c where p:
    "persist_outcome env L roomId gameState secret players outcome
       (insert_player_action (f_insert_action env)
          (action_row roomId gameState payload outcome) db) = (db2, r, c)"
    by (metis prod_cases3)
  show ?thesis
  proof (cases "truthy_error (o_error outcome)")
    case True
    then show ?thesis using assms by (simp add: apply_outcome_def Let_def)
  next
    case False
    then show ?thesis
      using assms p by (cases r) (simp_all add: apply_outcome_def Let_def action_response_def)
  qed
qed

lemma dealt_rows:
  "dealt =
     \<lparr> rooms = [room1\<lparr>current_hand_number := 1, button_seat := Some 1\<rparr>],
       room_players = [alice\<lparr>chip_stack := 99, current_bet := 1\<rparr>,
                       bob\<lparr>chip_stack := 98, current_bet := 2\<rparr>],
       game_states = [hand1\<lparr>gs_id := ''g1''\<rparr>],
       game_state_secrets =
         [\<lparr> s_game_state_id = ''g1'', deck_seed = ''seed-1'',
            full_board1 = [''Ah'', ''Kh'', ''Qh'', ''Jh'', ''Th''],
            full_board2 = [''2d'', ''3d'', ''4d'', ''5d'', ''6d''] \<rparr>],
       player_hands =
         [\<lparr> h_room_id = ''r1'', h_game_state_id = ''g1'', h_seat_number = 1,
            cards = [''As'', ''Ks'', ''Qs'', ''Js''], h_auth_user_id = None \<rparr>,
          \<lparr> h_room_id = ''r1'', h_game_state_id = ''g1'', h_seat_number = 2,
            cards = [''2c'', ''7d'', ''8h'', ''9s''], h_auth_user_id = None \<rparr>],
       player_actions = [], hand_results = [] \<rparr>"
  by code_simp

lemma fold_at_dealt:
  "actions no_action_faults table_logic dealt ''r1'' fold_request =
     (dealt\<lparr> room_players := [alice\<lparr>chip_stack := 99, current_bet := 1, has_folded := True\<rparr>,
                               bob\<lparr>chip_stack := 101, current_bet := 2\<rparr>],
             game_states := [], game_state_secrets := [],
             player_actions :=
               [\<lparr> a_room_id = ''r1'', a_game_state_id = ''g1'', a_seat_number = 1,
                  action_type = Fold, a_amount = None, processed = True,
                  error_message = None, a_auth_user_id = None \<rparr>],
             hand_results :=
               [\<lparr> hr_room_id = ''r1'', hr_hand_number = 1, final_pot = 3,
                  board_a = Some [], board_b = Some [], winners = [2],
                  hr_action_history = [] \<rparr>] \<rparr>,
      ActionDone None,
      [Evaluation [(2, [''2c'', ''7d'', ''8h'', ''9s''])]
         [''Ah'', ''Kh'', ''Qh'', ''Jh'', ''Th''] [''2d'', ''3d'', ''4d'', ''5d'', ''6d'']])"
  by code_simp

lemma check_at_dealt:
  "actions no_action_faults table_logic dealt ''r1'' check_request =
     (dealt\<lparr> player_actions :=
               [\<lparr> a_room_id = ''r1'', a_game_state_id = ''g1'', a_seat_number = 1,
                  action_type = Check, a_amount = None, processed = False,
                  error_message = Some ''Not your turn'', a_auth_user_id = None \<rparr>] \<rparr>,
      ErrorResponse 400 ''Not your turn'', [])"
  by code_simp

lemma fold_again:
  "actions no_action_faults table_logic after_fold ''r1'' fold_request =
     (after_fold, ErrorResponse 400 ''No active hand'', [])"
  by code_simp

text \<open>
  Claim C6 (rejected-action atomicity). A request the handler answers with a 400 or a
  404 leaves the hand state, every player row, the room, the secret, the hole cards and
  the results as they were, and runs no evaluation. When \<open>applyAction\<close> rejects the
  action with a reason, the answer is 400 with that reason, and the only row written is
  the record of the request in player_actions, marked unprocessed with the reason (or
  nothing, when that insert fails).
\<close>

theorem rejected_action_not_applied:
  assumes run: "actions env L db roomId body = (db', resp, calls)"
  shows "(\<forall>code msg. resp = ErrorResponse code msg \<longrightarrow> code \<noteq> 500 \<longrightarrow>
            hand_untouched db db' \<and> calls = [])
       \<and> (\<forall>payload room gameState secret reason.
            actionSchema_safeParse body = Inr payload \<longrightarrow>
            fetchRoom db roomId = Some room \<longrightarrow>
            fetchLatestGameState db roomId = Some gameState \<longrightarrow>
            fetchGameStateSecret db (gs_id gameState) = Some secret \<longrightarrow>
            o_error (requested_outcome L db roomId room gameState secret payload)
              = Some reason \<longrightarrow>
            reason \<noteq> [] \<longrightarrow>
            resp = ErrorResponse 400 reason \<and> hand_untouched db db' \<and>
            (db' = db \<or>
             db' = db\<lparr>player_actions := player_actions db @
                      [\<lparr> a_room_id = roomId, a_game_state_id = gs_id gameState,
                         a_seat_number = seatNumber payload, action_type = actionType payload,
                         a_amount = req_amount payload, processed = False,
                         error_message = Some reason,
                         a_auth_user_id = authUserId payload \<rparr>]\<rparr>))"
proof (rule conjI; intro allI impI)
  fix code msg
  assume r: "resp = ErrorResponse code msg" and c: "code \<noteq> 500"
  show "hand_untouched db db' \<and> calls = []"
  proof (cases "actionSchema_safeParse body")
    case (Inl e)
    then show ?thesis using run by (simp add: actions_def hand_untouched_def)
  next
    case (Inr payload)
    show ?thesis
    proof (cases "fetchRoom db roomId")
      case None
      then show ?thesis using run Inr by (simp add: actions_def hand_untouched_def)
    next
      case (Some room)
      note room = this
      show ?thesis
      proof (cases "fetchLatestGameState db roomId")
        case None
        then show ?thesis using run Inr room by (simp add: actions_def hand_untouched_def)
      next
        case (Some gameState)
        note gs = this
        show ?thesis
        proof (cases "fetchGameStateSecret db (gs_id gameState)")
          case None
          then show ?thesis using run Inr room gs r c by (simp add: actions_def)
        next
          case (Some secret)
          have "apply_outcome env L roomId payload gameState secret (fetchPlayers db roomId)
                  (requested_outcome L db roomId room gameState secret payload) db
                = (db', ErrorResponse code msg, calls)"
            using run r actions_reached [OF Inr room gs Some, of env L] by simp
          from apply_outcome_error [OF this c] show ?thesis
            by (simp add: hand_untouched_def insert_player_action_tables)
        qed
      qed
    qed
  qed
next
  fix payload room gameState secret reason
  assume a: "actionSchema_safeParse body = Inr payload" "fetchRoom db roomId = Some room"
    "fetchLatestGameState db roomId = Some gameState"
    "fetchGameStateSecret db (gs_id gameState) = Some secret"
    and e: "o_error (requested_outcome L db roomId room gameState secret payload) = Some reason"
    "reason \<noteq> []"
  have "actions env L db roomId body =
          (insert_player_action (f_insert_action env)
              (action_row roomId gameState payload
                 (requested_outcome L db roomId room gameState secret payload)) db,
            ErrorResponse 400 reason, [])"
    using actions_reached [OF a, of env L] apply_outcome_rejected [OF e] by simp
  then show "resp = ErrorResponse 400 reason \<and> hand_untouched db db' \<and>
            (db' = db \<or>
             db' = db\<lparr>player_actions := player_actions db @
                      [\<lparr> a_room_id = roomId, a_game_state_id = gs_id gameState,
                         a_seat_number = seatNumber payload, action_type = actionType payload,
                         a_amount = req_amount payload, processed = False,
                         error_message = Some reason,
                         a_auth_user_id = authUserId payload \<rparr>]\<rparr>)"
    using run e
    by (auto simp: hand_untouched_def insert_player_action_def action_row_def truthy_error_def
        split: option.splits)
qed

theorem rejected_action_not_applied_witness:
  "actions no_action_faults table_logic dealt ''r1'' check_request
     = (dealt\<lparr> player_actions :=
               [\<lparr> a_room_id = ''r1'', a_game_state_id = ''g1'', a_seat_number = 1,
                  action_type = Check, a_amount = None, processed = False,
                  error_message = Some ''Not your turn'', a_auth_user_id = None \<rparr>] \<rparr>,
        ErrorResponse 400 ''Not your turn'', [])
   \<and> hand_untouched dealt
        (dealt\<lparr> player_actions :=
               [\<lparr> a_room_id = ''r1'', a_game_state_id = ''g1'', a_seat_number = 1,
                  action_type = Check, a_amount = None, processed = False,
                  error_message = Some ''Not your turn'', a_auth_user_id = None \<rparr>] \<rparr>)"
  using rejected_action_not_applied [OF check_at_dealt] check_at_dealt
  by simp

lemma room_rows_after:
  assumes "filter (\<lambda>g. gs_room_id g = roomId) gs = [gameState]"
  shows "filter (\<lambda>g. gs_room_id g = roomId)
           (filter (\<lambda>g. gs_id g \<noteq> gs_id gameState)
              (map (\<lambda>g. if gs_id g = gs_id gameState then merge_game_state g u else g) gs)) = []"
proof -
  let ?f = "\<lambda>g. if gs_id g = gs_id gameState then merge_game_state g u else g"
  have only: "g = gameState" if "g \<in> set gs" "gs_room_id g = roomId" for g
  proof -
    have "g \<in> set (filter (\<lambda>g. gs_room_id g = roomId) gs)" using that by simp
    then have "g \<in> set [gameState]" by (simp only: assms)
    then show ?thesis by simp
  qed
  have "gs_room_id x \<noteq> roomId"
    if x: "x \<in> set (filter (\<lambda>g. gs_id g \<noteq> gs_id gameState) (map ?f gs))" for x
  proof
    assume r: "gs_room_id x = roomId"
    from x obtain g where g: "g \<in> set gs" "x = ?f g" and ne: "gs_id x \<noteq> gs_id gameState"
      by auto
    have "gs_room_id g = roomId" using r g(2) by (simp split: if_splits)
    then have "g = gameState" using only g(1) by blast
    then have "gs_id x = gs_id gameState" using g(2) by simp
    then show False using ne by simp
  qed
  then show ?thesis by (simp only: filter_empty_conv) blast
qed

lemma map_update_ids:
  "map gs_id (map (\<lambda>g. if gs_id g = gid then merge_game_state g u else g) xs) = map gs_id xs"
  by (induction xs) auto

lemma deleted_id_absent: "gid \<notin> gs_id ` set (filter (\<lambda>g. gs_id g \<noteq> gid) xs)"
  by auto

text \<open>
  Claim C9 (the hand-state row as the no-active-hand signal). An action on a room with
  no hand-state row is answered 400 ``No active hand'' and changes nothing. An action
  that the handler completes without a write failing leaves the row in place while
  the hand goes on, and removes it when \<open>applyAction\<close> reports the hand completed; when
  that row was the room's only one, the room then has no hand-state row, so the next
  action gets ``No active hand''.
\<close>

theorem hand_state_row_signals_hand:
  assumes parse: "actionSchema_safeParse body = Inr payload"
      and room: "fetchRoom db roomId = Some room"
  shows "(fetchLatestGameState db roomId = None \<longrightarrow>
            actions env L db roomId body = (db, ErrorResponse 400 ''No active hand'', []))
       \<and> (\<forall>gameState secret db' g calls.
            fetchLatestGameState db roomId = Some gameState \<longrightarrow>
            fetchGameStateSecret db (gs_id gameState) = Some secret \<longrightarrow>
            actions env L db roomId body = (db', ActionDone g, calls) \<longrightarrow>
            (if o_handCompleted (requested_outcome L db roomId room gameState secret payload)
             then g = None \<and> gs_id gameState \<notin> gs_id ` set (game_states db')
                  \<and> (filter (\<lambda>g. gs_room_id g = roomId) (game_states db) = [gameState]
                       \<longrightarrow> fetchLatestGameState db' roomId = None)
             else g \<noteq> None \<and> gs_id gameState \<in> gs_id ` set (game_states db')))"
proof (rule conjI; intro allI impI)
  assume "fetchLatestGameState db roomId = None"
  then show "actions env L db roomId body = (db, ErrorResponse 400 ''No active hand'', [])"
    using parse room by (simp add: actions_def)
next
  fix gameState secret db' g calls
  assume gs: "fetchLatestGameState db roomId = Some gameState"
     and se: "fetchGameStateSecret db (gs_id gameState) = Some secret"
     and run: "actions env L db roomId body = (db', ActionDone g, calls)"
  define outcome where "outcome = requested_outcome L db roomId room gameState secret payload"
  have "apply_outcome env L roomId payload gameState secret (fetchPlayers db roomId) outcome db
          = (db', ActionDone g, calls)"
    using trans [OF sym [OF actions_reached [OF parse room gs se, of env L]] run]
    unfolding outcome_def .
  note d = apply_outcome_done [OF this]
  note rows = persist_outcome_game_states [OF d [THEN conjunct1],
      unfolded insert_player_action_tables]
  have g: "g = (if o_handCompleted outcome then None
                 else Some (merge_game_state gameState (o_updatedGameState outcome)))"
    using d by simp
  have mem: "gameState \<in> set (game_states db)"
    using fetchLatestGameState_mem [OF gs] by simp
  have "if o_handCompleted outcome
        then g = None \<and> gs_id gameState \<notin> gs_id ` set (game_states db')
             \<and> (filter (\<lambda>g. gs_room_id g = roomId) (game_states db) = [gameState]
                  \<longrightarrow> fetchLatestGameState db' roomId = None)
        else g \<noteq> None \<and> gs_id gameState \<in> gs_id ` set (game_states db')"
  proof (cases "o_handCompleted outcome")
    case True
    have gsd: "game_states db' = filter (\<lambda>g. gs_id g \<noteq> gs_id gameState)
             (map (\<lambda>g. if gs_id g = gs_id gameState
                       then merge_game_state g (o_updatedGameState outcome) else g)
                  (game_states db))"
      using rows True by simp
    have "gs_id gameState \<notin> gs_id ` set (game_states db')"
      unfolding gsd by (rule deleted_id_absent)
    moreover have "fetchLatestGameState db' roomId = None"
      if "filter (\<lambda>g. gs_room_id g = roomId) (game_states db) = [gameState]"
      unfolding fetchLatestGameState_def gsd by (simp only: room_rows_after [OF that] latest.simps)
    ultimately show ?thesis using True g by simp
  next
    case False
    have gsd: "game_states db' = map (\<lambda>g. if gs_id g = gs_id gameState
                       then merge_game_state g (o_updatedGameState outcome) else g)
                  (game_states db)"
      using rows False by simp
    have "gs_id gameState \<in> set (map gs_id (game_states db))"
      using mem by simp
    also have "map gs_id (game_states db) = map gs_id (game_states db')"
      unfolding gsd by (simp add: map_update_ids)
    finally have "gs_id gameState \<in> gs_id ` set (game_states db')" by simp
    then show ?thesis using False g by simp
  qed
  then show "if o_handCompleted (requested_outcome L db roomId room gameState secret payload)
             then g = None \<and> gs_id gameState \<notin> gs_id ` set (game_states db')
                  \<and> (filter (\<lambda>g. gs_room_id g = roomId) (game_states db) = [gameState]
                       \<longrightarrow> fetchLatestGameState db' roomId = None)
             else g \<noteq> None \<and> gs_id gameState \<in> gs_id ` set (game_states db')"
    unfolding outcome_def .
qed

lemma dealt_reads:
  "actionSchema_safeParse fold_request = Inr fold_request"
  "fetchRoom dealt ''r1'' = Some (room1\<lparr>current_hand_number := 1, button_seat := Some 1\<rparr>)"
  "fetchLatestGameState dealt ''r1'' = Some (hand1\<lparr>gs_id := ''g1''\<rparr>)"
  "fetchGameStateSecret dealt ''g1'' =
     Some \<lparr> s_game_state_id = ''g1'', deck_seed = ''seed-1'',
            full_board1 = [''Ah'', ''Kh'', ''Qh'', ''Jh'', ''Th''],
            full_board2 = [''2d'', ''3d'', ''4d'', ''5d'', ''6d''] \<rparr>"
  "fetchRoom after_fold ''r1'' = Some (room1\<lparr>current_hand_number := 1, button_seat := Some 1\<rparr>)"
  "fetchLatestGameState after_fold ''r1'' = None"
  by code_simp+

theorem hand_state_row_signals_hand_witness:
  "actions no_action_faults table_logic dealt ''r1'' fold_request
     = (after_fold, ActionDone None,
        [Evaluation [(2, [''2c'', ''7d'', ''8h'', ''9s''])]
           [''Ah'', ''Kh'', ''Qh'', ''Jh'', ''Th''] [''2d'', ''3d'', ''4d'', ''5d'', ''6d'']])
   \<and> ''g1'' \<notin> gs_id ` set (game_states after_fold)
   \<and> fetchLatestGameState after_fold ''r1'' = None
   \<and> actions no_action_faults table_logic after_fold ''r1'' fold_request
        = (after_fold, ErrorResponse 400 ''No active hand'', [])"
proof -
  have run: "actions no_action_faults table_logic dealt ''r1'' fold_request
     = (after_fold, ActionDone None,
        [Evaluation [(2, [''2c'', ''7d'', ''8h'', ''9s''])]
           [''Ah'', ''Kh'', ''Qh'', ''Jh'', ''Th''] [''2d'', ''3d'', ''4d'', ''5d'', ''6d'']])"
    by code_simp
  have completed: "o_handCompleted (requested_outcome table_logic dealt ''r1''
          (room1\<lparr>current_hand_number := 1, button_seat := Some 1\<rparr>) (hand1\<lparr>gs_id := ''g1''\<rparr>)
          \<lparr> s_game_state_id = ''g1'', deck_seed = ''seed-1'',
            full_board1 = [''Ah'', ''Kh'', ''Qh'', ''Jh'', ''Th''],
            full_board2 = [''2d'', ''3d'', ''4d'', ''5d'', ''6d''] \<rparr> fold_request)"
    by (simp add: requested_outcome_def table_logic_def table_applyAction_def fold_request_def)
  have only: "filter (\<lambda>g. gs_room_id g = ''r1'') (game_states dealt) = [hand1\<lparr>gs_id := ''g1''\<rparr>]"
    by code_simp
  have sec: "fetchGameStateSecret dealt (gs_id (hand1\<lparr>gs_id := ''g1''\<rparr>)) =
     Some \<lparr> s_game_state_id = ''g1'', deck_seed = ''seed-1'',
            full_board1 = [''Ah'', ''Kh'', ''Qh'', ''Jh'', ''Th''],
            full_board2 = [''2d'', ''3d'', ''4d'', ''5d'', ''6d''] \<rparr>"
    using dealt_reads(4) by simp
  note h = hand_state_row_signals_hand [OF dealt_reads(1) dealt_reads(2), of no_action_faults table_logic,
        THEN conjunct2, rule_format, OF dealt_reads(3) sec run]
  note h2 = h [unfolded if_P [OF completed]]
  note h3 = h2 [THEN conjunct2, THEN conjunct2, THEN mp, OF only]
  have h4: "gs_id (hand1\<lparr>gs_id := ''g1''\<rparr>) = ''g1''" by simp
  note h5 = h2 [THEN conjunct2, THEN conjunct1, unfolded h4]
  have a: "''g1'' \<notin> gs_id ` set (game_states after_fold) \<and> fetchLatestGameState after_fold ''r1'' = None"
    using h5 h3 by (rule conjI)
  have b: "actions no_action_faults table_logic after_fold ''r1'' fold_request
        = (after_fold, ErrorResponse 400 ''No active hand'', [])"
    using hand_state_row_signals_hand [OF dealt_reads(1) dealt_reads(5), of no_action_faults table_logic,
        THEN conjunct1] dealt_reads(6) by simp
  show ?thesis using run a b by blast
qed

lemma apply_outcome_key:
  "apply_outcome env L roomId (payload\<lparr>idempotencyKey := k\<rparr>) gameState secret players outcome db
     = apply_outcome env L roomId payload gameState secret players outcome db"
  by (simp add: apply_outcome_def action_row_def)

text \<open>
  Claim C4 (idempotency), as amended. The schema accepts an \<open>idempotencyKey\<close> and the
  handler never reads it: the answer and the writes of a request are the same under
  every key, so a repeated request is processed afresh against the store it finds.
\<close>

theorem idempotency_key_ignored:
  "actions env L db roomId (body\<lparr>idempotencyKey := k\<rparr>)
     = actions env L db roomId (body\<lparr>idempotencyKey := k'\<rparr>)"
  by (simp add: actions_def actionSchema_safeParse_def apply_outcome_key Let_def
      split: option.splits)

theorem repeated_request_counterexample:
  "idempotencyKey fold_request = Some ''k1''
   \<and> fst (snd (actions no_action_faults table_logic dealt ''r1'' fold_request)) = ActionDone None
   \<and> fst (snd (actions no_action_faults table_logic
                  (fst (actions no_action_faults table_logic dealt ''r1'' fold_request))
                  ''r1'' fold_request))
       = ErrorResponse 400 ''No active hand''
   \<and> idempotencyKey check_request = Some ''k2''
   \<and> length (player_actions (fst (actions no_action_faults table_logic dealt ''r1'' check_request))) = 1
   \<and> length (player_actions
        (fst (actions no_action_faults table_logic
               (fst (actions no_action_faults table_logic dealt ''r1'' check_request))
               ''r1'' check_request))) = 2"
  by code_simp

definition silent_logic :: Logic where
  "silent_logic =
     table_logic\<lparr> applyAction :=
       (\<lambda>ctx s t a. (table_applyAction ctx s t a)\<lparr> o_autoWinners := None \<rparr>) \<rparr>"

theorem fold_out_counterexample:
  "map has_folded (room_players (fst (actions no_action_faults table_logic dealt ''r1'' fold_request)))
     = [True, False]
   \<and> snd (snd (actions no_action_faults table_logic dealt ''r1'' fold_request))
       = [Evaluation [(2, [''2c'', ''7d'', ''8h'', ''9s''])]
            [''Ah'', ''Kh'', ''Qh'', ''Jh'', ''Th''] [''2d'', ''3d'', ''4d'', ''5d'', ''6d'']]
   \<and> map chip_stack (room_players (fst (actions no_action_faults table_logic dealt ''r1'' fold_request)))
       = [99, 101]
   \<and> snd (snd (actions no_action_faults silent_logic dealt ''r1'' fold_request)) = []
   \<and> map chip_stack (room_players (fst (actions no_action_faults silent_logic dealt ''r1'' fold_request)))
       = [99, 98]
   \<and> game_states (fst (actions no_action_faults silent_logic dealt ''r1'' fold_request)) = []"
  by code_simp

lemma merge_player_id: "u_id u = Some (p_id p) \<Longrightarrow> p_id (merge_player p u) = p_id p"
  by (simp add: merge_player_def)

lemma mergedPlayers_ids: "map p_id (mergedPlayers players ups) = map p_id players"
proof -
  have "p_id (case find (\<lambda>u. u_id u = Some (p_id p)) ups of
                Some u \<Rightarrow> merge_player p u | None \<Rightarrow> p) = p_id p" for p
  proof (cases "find (\<lambda>u. u_id u = Some (p_id p)) ups")
    case None
    then show ?thesis by simp
  next
    case (Some u)
    then have "u_id u = Some (p_id p)" by (auto simp: find_Some_iff)
    then show ?thesis using Some by (simp add: merge_player_id)
  qed
  then show ?thesis by (simp add: mergedPlayers_def)
qed

lemma set_insort_seat: "set (insort_seat p qs) = insert p (set qs)"
  by (induction qs) auto

lemma set_fetchPlayers:
  "set (fetchPlayers db roomId) = {p \<in> set (room_players db). p_room_id p = roomId}"
proof -
  have "set (foldr insort_seat xs []) = set xs" for xs
    by (induction xs) (simp_all add: set_insort_seat)
  then show ?thesis by (auto simp: fetchPlayers_def)
qed

lemma upsert_row_ids:
  "upsert_row u tbl = Some tbl' \<Longrightarrow> p_id ` set tbl \<subseteq> p_id ` set tbl'"
proof (induction tbl arbitrary: tbl')
  case Nil
  then show ?case by simp
next
  case (Cons p ps)
  show ?case
  proof (cases "u_id u = Some (p_id p)")
    case True
    then have "tbl' = merge_player p u # ps" using Cons.prems by simp
    then show ?thesis using True by (simp add: merge_player_id)
  next
    case False
    then obtain qs where qs: "upsert_row u ps = Some qs" "tbl' = p # qs"
      using Cons.prems by auto
    from Cons.IH [OF qs(1)] show ?thesis using qs(2) by auto
  qed
qed

lemma upsert_rows_ids:
  "upsert_rows us tbl = Some tbl' \<Longrightarrow> p_id ` set tbl \<subseteq> p_id ` set tbl'"
proof (induction us arbitrary: tbl)
  case Nil
  then show ?case by simp
next
  case (Cons u us)
  then obtain t where t: "upsert_row u tbl = Some t" "upsert_rows us t = Some tbl'"
    by (auto split: option.splits)
  from upsert_row_ids [OF t(1)] Cons.IH [OF t(2)] show ?case by blast
qed

lemma upsert_players_ids:
  "upsert_players f us db = Inr db' \<Longrightarrow> p_id ` set (room_players db) \<subseteq> p_id ` set (room_players db')"
  by (auto simp: upsert_players_def split: option.splits if_splits dest!: upsert_rows_ids)

lemma upsert_row_sets_stack:
  assumes "u_id u = Some i" "u_chip_stack u = Some c" "i \<in> p_id ` set tbl"
  shows "\<exists>tbl'. upsert_row u tbl = Some tbl' \<and> (\<exists>p \<in> set tbl'. p_id p = i \<and> chip_stack p = c)"
  using assms(3)
proof (induction tbl)
  case Nil
  then show ?case by simp
next
  case (Cons p ps)
  show ?case
  proof (cases "p_id p = i")
    case True
    then have "upsert_row u (p # ps) = Some (merge_player p u # ps)"
      using assms(1) by simp
    moreover have "p_id (merge_player p u) = i \<and> chip_stack (merge_player p u) = c"
      using assms(1,2) by (simp add: merge_player_def)
    ultimately show ?thesis by auto
  next
    case False
    then have "i \<in> p_id ` set ps" using Cons.prems by auto
    from Cons.IH [OF this] obtain qs q where
      qs: "upsert_row u ps = Some qs" "q \<in> set qs" "p_id q = i" "chip_stack q = c" by blast
    have "upsert_row u (p # ps) = Some (p # qs)"
      using False assms(1) qs(1) by simp
    then show ?thesis using qs by auto
  qed
qed

lemma find_distinct_key:
  "distinct (map f xs) \<Longrightarrow> x \<in> set xs \<Longrightarrow> find (\<lambda>y. f y = f x) xs = Some x"
  by (induction xs) (auto simp: image_iff)

lemma creditUpdates_single:
  assumes "find (\<lambda>pl. seat_number pl = s) merged = Some w"
  shows "creditUpdates [\<lparr> seat = s, amount = pot \<rparr>] merged =
     [\<lparr> u_id = Some (p_id w), u_room_id = Some (p_room_id w),
        u_seat_number = Some (seat_number w), u_auth_user_id = Some (auth_user_id w),
        u_display_name = Some (display_name w), u_total_buy_in = Some (total_buy_in w),
        u_chip_stack = Some (chip_stack w + pot),
        u_current_bet = None, u_has_folded = None, u_is_all_in = None \<rparr>]"
  using assms by (simp add: creditUpdates_def List.map_filter_def)

lemma credit_single:
  assumes c: "credit_payouts f [\<lparr> seat = s, amount = pot \<rparr>] merged db = Inr db'"
      and w: "find (\<lambda>pl. seat_number pl = s) merged = Some w"
      and i: "p_id w \<in> p_id ` set (room_players db)"
  shows "\<exists>p \<in> set (room_players db'). p_id p = p_id w \<and> chip_stack p = chip_stack w + pot"
proof -
  let ?u = "\<lparr> u_id = Some (p_id w), u_room_id = Some (p_room_id w),
        u_seat_number = Some (seat_number w), u_auth_user_id = Some (auth_user_id w),
        u_display_name = Some (display_name w), u_total_buy_in = Some (total_buy_in w),
        u_chip_stack = Some (chip_stack w + pot),
        u_current_bet = None, u_has_folded = None, u_is_all_in = None \<rparr>"
  have up: "upsert_players f [?u] db = Inr db'"
    using c by (simp add: credit_payouts_def creditUpdates_single [OF w])
  obtain tbl' where t: "upsert_row ?u (room_players db) = Some tbl'"
    "\<exists>p \<in> set tbl'. p_id p = p_id w \<and> chip_stack p = chip_stack w + pot"
    using upsert_row_sets_stack [of ?u "p_id w" "chip_stack w + pot" "room_players db"] i
    by auto
  have "room_players db' = tbl'"
    using up t(1) by (auto simp: upsert_players_def List.map_filter_def split: option.splits if_splits)
  then show ?thesis using t(2) by simp
qed

lemma update_game_state_tables:
  "update_game_state f gid u db = Inr db' \<Longrightarrow>
   room_players db' = room_players db \<and> player_hands db' = player_hands db"
  by (auto simp: update_game_state_def split: option.splits)

lemma delete_game_state_tables:
  "delete_game_state f gid db = Inr db' \<Longrightarrow>
   room_players db' = room_players db \<and> player_hands db' = player_hands db"
  by (auto simp: delete_game_state_def split: option.splits)

lemma persist_outcome_steps:
  assumes p: "persist_outcome env L roomId gameState secret players outcome db = (db', None, calls)"
      and c: "o_handCompleted outcome"
  shows "\<exists>db2. complete_hand env L roomId gameState secret players outcome db2 = (db', None, calls)
               \<and> player_hands db2 = player_hands db
               \<and> p_id ` set (room_players db) \<subseteq> p_id ` set (room_players db2)"
proof -
  let ?u = "if o_updatedPlayers outcome \<noteq> []
            then upsert_players (f_upsert_updated env)
                   (deduplicatedPlayers (o_updatedPlayers outcome)) db
            else Inr db"
  show ?thesis
  proof (cases ?u)
    case (Inl e)
    then show ?thesis using p by (simp add: persist_outcome_def)
  next
    case (Inr da)
    then have a: "player_hands da = player_hands db"
      "p_id ` set (room_players db) \<subseteq> p_id ` set (room_players da)"
      by (auto split: if_splits dest: upsert_players_other_tables upsert_players_ids)
    show ?thesis
    proof (cases "update_game_state (f_update_game_state env) (gs_id gameState)
                    (o_updatedGameState outcome) da")
      case (Inl e)
      then show ?thesis using p \<open>?u = Inr da\<close> by (simp add: persist_outcome_def)
    next
      case (Inr db2)
      note t = update_game_state_tables [OF Inr]
      have "complete_hand env L roomId gameState secret players outcome db2 = (db', None, calls)"
        using p \<open>?u = Inr da\<close> Inr c by (simp add: persist_outcome_def)
      moreover have "player_hands db2 = player_hands db" using a t by simp
      moreover have "p_id ` set (room_players db) \<subseteq> p_id ` set (room_players db2)"
        using a t by simp
      ultimately show ?thesis by blast
    qed
  qed
qed

lemma complete_hand_steps:
  assumes p: "complete_hand env L roomId gameState secret players outcome db2 = (db', None, calls)"
      and a: "o_autoWinners outcome \<noteq> None" "truthy_pot (o_potAwarded outcome)"
  shows "\<exists>db3. showdown env L roomId gameState secret players outcome
                 (the (o_potAwarded outcome)) db2 = (db3, None, calls)
               \<and> room_players db' = room_players db3"
proof -
  obtain db3 r c where s:
    "showdown env L roomId gameState secret players outcome (the (o_potAwarded outcome)) db2
       = (db3, r, c)"
    by (metis prod_cases3)
  show ?thesis
  proof (cases r)
    case (Some e)
    then show ?thesis using p a s by (simp add: complete_hand_def)
  next
    case None
    show ?thesis
    proof (cases "delete_game_state (f_delete_game_state env) (gs_id gameState) db3")
      case (Inl e)
      then show ?thesis using p a s None by (simp add: complete_hand_def)
    next
      case (Inr d)
      note t = delete_game_state_tables [OF Inr]
      show ?thesis using p a s None Inr t by (simp add: complete_hand_def)
    qed
  qed
qed

lemma complete_hand_silent:
  assumes p: "complete_hand env L roomId gameState secret players outcome db2 = (db', r, calls)"
      and a: "o_autoWinners outcome = None \<or> \<not> truthy_pot (o_potAwarded outcome)"
  shows "calls = [] \<and> room_players db' = room_players db2"
proof (cases "delete_game_state (f_delete_game_state env) (gs_id gameState) db2")
  case (Inl e)
  then show ?thesis using p a by (auto simp: complete_hand_def)
next
  case (Inr d)
  note t = delete_game_state_tables [OF Inr]
  show ?thesis using p a Inr t by (auto simp: complete_hand_def)
qed

lemma showdown_steps:
  assumes s: "showdown env L roomId gameState secret players outcome pot db2 = (db3, None, calls)"
      and m: "merged = mergedPlayers players (o_updatedPlayers outcome)"
      and h: "hands = activeHands merged
                (filter (\<lambda>h. h_game_state_id h = gs_id gameState) (player_hands db2))"
      and w: "ws = determineDoubleBoardWinners L hands (full_board1 secret) (full_board2 secret)"
  shows "calls = [Evaluation hands (full_board1 secret) (full_board2 secret)]
         \<and> (\<exists>dc. credit_payouts (f_upsert_credit env)
                     (endOfHandPayout L (fst ws) (snd ws) pot) merged db2 = Inr dc
                  \<and> room_players db3 = room_players dc)"
proof (cases "credit_payouts (f_upsert_credit env)
                (endOfHandPayout L (fst ws) (snd ws) pot) merged db2")
  case (Inl e)
  then show ?thesis using s m h w by (simp add: showdown_def Let_def)
next
  case (Inr dc)
  show ?thesis
  proof (cases "insert_hand_result (f_insert_result env)
                  (hand_result_row roomId gameState outcome pot ws) dc")
    case (Inl e)
    then show ?thesis using s m h w Inr by (simp add: showdown_def Let_def)
  next
    case (Inr d2)
    note t = insert_hand_result_tables [OF Inr]
    show ?thesis using s m h w \<open>credit_payouts (f_upsert_credit env)
                (endOfHandPayout L (fst ws) (snd ws) pot) merged db2 = Inr dc\<close> Inr t
      by (simp add: showdown_def Let_def)
  qed
qed

lemma sole_active_hand:
  assumes sole: "filter (\<lambda>p. \<not> has_folded p) merged = [w]"
      and hand: "filter (\<lambda>h. h_game_state_id h = gid \<and> h_seat_number h = seat_number w) hs = [hw]"
  shows "activeHands merged (filter (\<lambda>h. h_game_state_id h = gid) hs) = [(seat_number w, cards hw)]"
proof -
  have "seat_number ` set (filter (\<lambda>p. \<not> has_folded p) merged) = {seat_number w}"
    by (simp only: sole) simp
  then have "activeHands merged (filter (\<lambda>h. h_game_state_id h = gid) hs)
       = map (\<lambda>ph. (h_seat_number ph, cards ph))
           (filter (\<lambda>h. h_game_state_id h = gid \<and> h_seat_number h = seat_number w) hs)"
    by (simp add: activeHands_def)
  moreover have "h_seat_number hw = seat_number w"
  proof -
    have "hw \<in> set (filter (\<lambda>h. h_game_state_id h = gid \<and> h_seat_number h = seat_number w) hs)"
      by (simp only: hand) simp
    then show ?thesis by simp
  qed
  ultimately show ?thesis by (simp only: hand) simp
qed

text \<open>
  Claim C3 (fold-out), as amended. When \<open>applyAction\<close> reports the hand completed with
  \<open>autoWinners\<close> and a non-zero \<open>potAwarded\<close>, and all seats but one have folded, the handler
  does run the showdown evaluation, on the single hand that remains; when the
  evaluation names that seat winner of both boards and the payout gives it the pot,
  the seat's stack is credited the entire pot and the hand-state row is deleted. The
  handler has no path that pays a pot without the evaluation
  (\<open>fold_out_counterexample\<close>: with \<open>autoWinners\<close> present the evaluation is called, without
  it nothing is paid).
\<close>

theorem fold_out_paid_after_evaluation:
  assumes parse: "actionSchema_safeParse body = Inr payload"
      and room: "fetchRoom db roomId = Some room"
      and gs: "fetchLatestGameState db roomId = Some gameState"
      and se: "fetchGameStateSecret db (gs_id gameState) = Some secret"
      and ok: "actions env L db roomId body = (db', ActionDone g, calls)"
      and out: "outcome = requested_outcome L db roomId room gameState secret payload"
      and completed: "o_handCompleted outcome"
      and aw: "o_autoWinners outcome \<noteq> None"
      and pot: "o_potAwarded outcome = Some pot" "pot \<noteq> 0"
      and merged: "merged = mergedPlayers (fetchPlayers db roomId) (o_updatedPlayers outcome)"
      and sole: "filter (\<lambda>p. \<not> has_folded p) merged = [w]"
      and seats: "distinct (map seat_number merged)"
      and hand: "filter (\<lambda>h. h_game_state_id h = gs_id gameState
                              \<and> h_seat_number h = seat_number w) (player_hands db) = [hw]"
      and ev: "determineDoubleBoardWinners L [(seat_number w, cards hw)]
                 (full_board1 secret) (full_board2 secret) = ([seat_number w], [seat_number w])"
      and pay: "endOfHandPayout L [seat_number w] [seat_number w] pot
                 = [\<lparr> seat = seat_number w, amount = pot \<rparr>]"
  shows "calls = [Evaluation [(seat_number w, cards hw)] (full_board1 secret) (full_board2 secret)]
       \<and> g = None
       \<and> gs_id gameState \<notin> gs_id ` set (game_states db')
       \<and> (\<exists>p \<in> set (room_players db'). p_id p = p_id w \<and> chip_stack p = chip_stack w + pot)"
proof -
  let ?db1 = "insert_player_action (f_insert_action env)
                (action_row roomId gameState payload outcome) db"
  have "apply_outcome env L roomId payload gameState secret (fetchPlayers db roomId) outcome db
          = (db', ActionDone g, calls)"
    using trans [OF sym [OF actions_reached [OF parse room gs se, of env L]] ok]
    unfolding out .
  note d = apply_outcome_done [OF this]
  note p = d [THEN conjunct1]
  have g: "g = None" using d completed by simp
  note gsd = persist_outcome_game_states [OF p, unfolded if_P [OF completed]]
  have gone: "gs_id gameState \<notin> gs_id ` set (game_states db')"
    unfolding gsd by (rule deleted_id_absent)
  obtain db2 where c: "complete_hand env L roomId gameState secret (fetchPlayers db roomId)
                         outcome db2 = (db', None, calls)"
    and h2: "player_hands db2 = player_hands db"
    and i2: "p_id ` set (room_players db) \<subseteq> p_id ` set (room_players db2)"
    using persist_outcome_steps [OF p completed]
    by (auto simp: insert_player_action_tables)
  have tp: "truthy_pot (o_potAwarded outcome)" using pot by (simp add: truthy_pot_def)
  obtain db3 where s: "showdown env L roomId gameState secret (fetchPlayers db roomId) outcome
                         pot db2 = (db3, None, calls)"
    and r3: "room_players db' = room_players db3"
    using complete_hand_steps [OF c aw tp] pot by auto
  have hands: "activeHands merged
                 (filter (\<lambda>h. h_game_state_id h = gs_id gameState) (player_hands db2))
               = [(seat_number w, cards hw)]"
    unfolding h2 using sole hand by (rule sole_active_hand)
  note st = showdown_steps [OF s merged hands [symmetric] refl, unfolded ev fst_conv snd_conv pay]
  then obtain dc where cr: "credit_payouts (f_upsert_credit env)
                              [\<lparr> seat = seat_number w, amount = pot \<rparr>] merged db2 = Inr dc"
    and rc: "room_players db3 = room_players dc"
    by blast
  have wm: "w \<in> set merged"
  proof -
    have "w \<in> set (filter (\<lambda>p. \<not> has_folded p) merged)" by (simp only: sole) simp
    then show ?thesis by simp
  qed
  have fw: "find (\<lambda>pl. seat_number pl = seat_number w) merged = Some w"
    using seats wm by (rule find_distinct_key)
  have "p_id w \<in> set (map p_id merged)" using wm by simp
  then have "p_id w \<in> p_id ` set (fetchPlayers db roomId)"
    unfolding merged mergedPlayers_ids by simp
  then have "p_id w \<in> p_id ` set (room_players db)"
    by (auto simp: set_fetchPlayers)
  then have iw: "p_id w \<in> p_id ` set (room_players db2)" using i2 by blast
  from credit_single [OF cr fw iw]
  have "\<exists>p \<in> set (room_players db'). p_id p = p_id w \<and> chip_stack p = chip_stack w + pot"
    unfolding r3 rc .
  then show ?thesis using st g gone by blast
qed

definition bob_in_hand :: RoomPlayer where
  "bob_in_hand = bob\<lparr>chip_stack := 98, current_bet := 2\<rparr>"

definition bob_hand :: PlayerHand where
  "bob_hand = \<lparr> h_room_id = ''r1'', h_game_state_id = ''g1'', h_seat_number = 2,
                cards = [''2c'', ''7d'', ''8h'', ''9s''], h_auth_user_id = None \<rparr>"

definition secret1 :: GameStateSecret where
  "secret1 = \<lparr> s_game_state_id = ''g1'', deck_seed = ''seed-1'',
               full_board1 = [''Ah'', ''Kh'', ''Qh'', ''Jh'', ''Th''],
               full_board2 = [''2d'', ''3d'', ''4d'', ''5d'', ''6d''] \<rparr>"

theorem fold_out_paid_after_evaluation_witness:
  "snd (snd (actions no_action_faults table_logic dealt ''r1'' fold_request))
     = [Evaluation [(2, [''2c'', ''7d'', ''8h'', ''9s''])]
          [''Ah'', ''Kh'', ''Qh'', ''Jh'', ''Th''] [''2d'', ''3d'', ''4d'', ''5d'', ''6d'']]
   \<and> (\<exists>p \<in> set (room_players after_fold). p_id p = ''p2'' \<and> chip_stack p = 101)"
proof -
  let ?room = "room1\<lparr>current_hand_number := 1, button_seat := Some 1\<rparr>"
  let ?gs = "hand1\<lparr>gs_id := ''g1''\<rparr>"
  let ?o = "requested_outcome table_logic dealt ''r1'' ?room ?gs secret1 fold_request"
  let ?m = "mergedPlayers (fetchPlayers dealt ''r1'') (o_updatedPlayers ?o)"
  have 1: "actionSchema_safeParse fold_request = Inr fold_request" by code_simp
  have 2: "fetchRoom dealt ''r1'' = Some ?room" by code_simp
  have 3: "fetchLatestGameState dealt ''r1'' = Some ?gs" by code_simp
  have 4: "fetchGameStateSecret dealt (gs_id ?gs) = Some secret1" by code_simp
  have 5: "actions no_action_faults table_logic dealt ''r1'' fold_request
     = (after_fold, ActionDone None,
        [Evaluation [(2, [''2c'', ''7d'', ''8h'', ''9s''])]
           [''Ah'', ''Kh'', ''Qh'', ''Jh'', ''Th''] [''2d'', ''3d'', ''4d'', ''5d'', ''6d'']])"
    by code_simp
  have 6: "o_handCompleted ?o" by code_simp
  have 7: "o_autoWinners ?o \<noteq> None" by code_simp
  have 8: "o_potAwarded ?o = Some 3" "(3::int) \<noteq> 0" by code_simp+
  have 9: "filter (\<lambda>p. \<not> has_folded p) ?m = [bob_in_hand]" by code_simp
  have 10: "distinct (map seat_number ?m)" by code_simp
  have 11: "filter (\<lambda>h. h_game_state_id h = gs_id ?gs \<and> h_seat_number h = seat_number bob_in_hand)
              (player_hands dealt) = [bob_hand]" by code_simp
  have 12: "determineDoubleBoardWinners table_logic [(seat_number bob_in_hand, cards bob_hand)]
              (full_board1 secret1) (full_board2 secret1)
            = ([seat_number bob_in_hand], [seat_number bob_in_hand])" by code_simp
  have 13: "endOfHandPayout table_logic [seat_number bob_in_hand] [seat_number bob_in_hand] 3
            = [\<lparr> seat = seat_number bob_in_hand, amount = 3 \<rparr>]" by code_simp
  have 14: "p_id bob_in_hand = ''p2''" "chip_stack bob_in_hand + 3 = 101" by code_simp+
  note t = fold_out_paid_after_evaluation [OF 1 2 3 4 5 refl 6 7 8 refl 9 10 11 12 13]
  have "\<exists>p \<in> set (room_players after_fold). p_id p = ''p2'' \<and> chip_stack p = 101"
    using t [THEN conjunct2, THEN conjunct2, THEN conjunct2] unfolding 14 .
  then show ?thesis using 5 by simp
qed

section \<open>Properties of the payout calculator\<close>

lemma unique_in_order_set [simp]: "set (unique_in_order ws) = set ws"
  by (simp add: unique_in_order_def)

lemma unique_in_order_distinct [simp]: "distinct (unique_in_order ws)"
  by (simp add: unique_in_order_def)

lemma unique_in_order_Nil [simp]: "unique_in_order ws = [] \<longleftrightarrow> ws = []"
  by (simp add: unique_in_order_def)

lemma split_pot_seats [simp]: "map fst (split_pot share extra ss) = ss"
  by (induction ss arbitrary: extra) simp_all

lemma split_pot_length [simp]: "length (split_pot share extra ss) = length ss"
  by (induction ss arbitrary: extra) simp_all

lemma split_pot_sum:
  "sum_list (map snd (split_pot share extra ss))
     = share * int (length ss) + int (min extra (length ss))"
proof (induction ss arbitrary: extra)
  case Nil
  then show ?case by simp
next
  case (Cons s ss)
  show ?case
  proof (cases extra)
    case 0
    then show ?thesis using Cons.IH [of 0] by (simp add: algebra_simps)
  next
    case (Suc e)
    then show ?thesis using Cons.IH [of e] by (simp add: algebra_simps)
  qed
qed

lemma split_pot_nth:
  "i < length ss \<Longrightarrow>
   split_pot share extra ss ! i = (ss ! i, share + (if i < extra then 1 else 0))"
proof (induction ss arbitrary: extra i)
  case Nil
  then show ?case by simp
next
  case (Cons s ss)
  show ?case
  proof (cases i)
    case 0
    then show ?thesis by simp
  next
    case (Suc j)
    then have "j < length ss" using Cons.prems by simp
    from Cons.IH [OF this, of "extra - 1"] show ?thesis using Suc by (cases extra) simp_all
  qed
qed

lemma board_payout_seats [simp]: "map fst (board_payout pot ws) = unique_in_order ws"
  by (simp add: board_payout_def Let_def)

lemma board_payout_sum:
  assumes "ws \<noteq> []"
  shows "sum_list (map snd (board_payout pot ws)) = pot"
proof -
  let ?n = "int (length (unique_in_order ws))"
  have n: "0 < ?n" using assms by (simp add: length_greater_0_conv)
  then have m: "0 \<le> pot mod ?n" "pot mod ?n < ?n" by simp_all
  then have "min (nat (pot mod ?n)) (length (unique_in_order ws)) = nat (pot mod ?n)"
    by linarith
  then have "sum_list (map snd (board_payout pot ws)) = pot div ?n * ?n + pot mod ?n"
    using m by (simp add: board_payout_def Let_def split_pot_sum)
  then show ?thesis by simp
qed

lemma board_payout_nth:
  assumes "i < length (unique_in_order ws)"
  shows "board_payout pot ws ! i
           = (unique_in_order ws ! i,
              pot div int (length (unique_in_order ws))
                + (if int i < pot mod int (length (unique_in_order ws)) then 1 else 0))"
proof -
  let ?n = "int (length (unique_in_order ws))"
  have "0 < length (unique_in_order ws)" using assms by linarith
  then have "0 < ?n" by (simp only: of_nat_0_less_iff)
  then have "0 \<le> pot mod ?n" by simp
  then have "i < nat (pot mod ?n) \<longleftrightarrow> int i < pot mod ?n" by linarith
  then show ?thesis
    using assms by (simp add: board_payout_def Let_def split_pot_nth)
qed

lemma credited_sum:
  "distinct (map fst m) \<Longrightarrow> (\<Sum>s \<in> set (map fst m). credited m s) = sum_list (map snd m)"
proof (induction m)
  case Nil
  then show ?case by simp
next
  case (Cons kv m)
  obtain k v where kv: "kv = (k, v)" by (cases kv)
  have k: "k \<notin> fst ` set m" and d: "distinct (map fst m)" using Cons.prems kv by auto
  have same: "credited ((k, v) # m) s = credited m s" if "s \<in> fst ` set m" for s
    using that k by (auto simp: credited_def)
  have "(\<Sum>s \<in> set (map fst (kv # m)). credited (kv # m) s)
          = credited ((k, v) # m) k + (\<Sum>s \<in> fst ` set m. credited ((k, v) # m) s)"
    using k kv by simp
  also have "credited ((k, v) # m) k = v" by (simp add: credited_def)
  also have "(\<Sum>s \<in> fst ` set m. credited ((k, v) # m) s) = (\<Sum>s \<in> fst ` set m. credited m s)"
    using same by (intro sum.cong) auto
  also have "\<dots> = sum_list (map snd m)" using Cons.IH [OF d] by simp
  finally show ?case using kv by simp
qed

lemma credited_outside: "s \<notin> fst ` set m \<Longrightarrow> credited m s = 0"
proof -
  assume "s \<notin> fst ` set m"
  then have "map_of m s = None" by (simp add: map_of_eq_None_iff)
  then show ?thesis by (simp add: credited_def)
qed

lemma credited_sum_over:
  assumes "distinct (map fst m)" "fst ` set m \<subseteq> set seats" "distinct seats"
  shows "sum_list (map (credited m) seats) = sum_list (map snd m)"
proof -
  have "sum_list (map (credited m) seats) = (\<Sum>s \<in> set seats. credited m s)"
    using assms(3) by (simp add: sum_list_distinct_conv_sum_set)
  also have "\<dots> = (\<Sum>s \<in> fst ` set m. credited m s)"
    using assms(2) by (intro sum.mono_neutral_right) (auto simp: credited_outside)
  also have "\<dots> = sum_list (map snd m)" using credited_sum [OF assms(1)] by simp
  finally show ?thesis .
qed

lemma board_payout_credited_sum:
  assumes "ws \<noteq> []" "set ws \<subseteq> set seats" "distinct seats"
  shows "sum_list (map (credited (board_payout pot ws)) seats) = pot"
proof -
  have "fst ` set (board_payout pot ws) = set ws"
    using board_payout_seats [of pot ws] by (metis set_map unique_in_order_set)
  then show ?thesis
    using credited_sum_over [of "board_payout pot ws" seats] assms board_payout_sum [OF assms(1)]
    by simp
qed

lemma amount_of_pairs:
  "map amount (map (\<lambda>(s, a). \<lparr>seat = s, amount = a\<rparr>) m) = map snd m"
  "map seat (map (\<lambda>(s, a). \<lparr>seat = s, amount = a\<rparr>) m) = map fst m"
  by (induction m) auto

lemma payout_single_amounts:
  "map amount (payout ws1 None pot) = map snd (board_payout pot ws1)"
  "map seat (payout ws1 None pot) = unique_in_order ws1"
proof -
  have p: "payout ws1 None pot
             = map (\<lambda>(s, a). \<lparr>seat = s, amount = a\<rparr>) (board_payout pot ws1)"
    unfolding payout_def by simp
  show "map amount (payout ws1 None pot) = map snd (board_payout pot ws1)"
    unfolding p by (rule amount_of_pairs)
  show "map seat (payout ws1 None pot) = unique_in_order ws1"
    unfolding p amount_of_pairs by (rule board_payout_seats)
qed

lemma payout_double_amounts:
  "map amount (payout ws1 (Some ws2) pot)
     = map (\<lambda>s. credited (board_payout (pot - pot div 2) ws1) s
                + credited (board_payout (pot div 2) ws2) s)
           (unique_in_order (ws1 @ ws2))"
  "map seat (payout ws1 (Some ws2) pot) = unique_in_order (ws1 @ ws2)"
proof -
  have p: "payout ws1 (Some ws2) pot
       = map (\<lambda>s. \<lparr>seat = s,
                 amount = credited (board_payout (pot - pot div 2) ws1) s
                          + credited (board_payout (pot div 2) ws2) s\<rparr>)
             (unique_in_order (ws1 @ ws2))"
    unfolding payout_def Let_def by simp
  show "map amount (payout ws1 (Some ws2) pot)
     = map (\<lambda>s. credited (board_payout (pot - pot div 2) ws1) s
                + credited (board_payout (pot div 2) ws2) s)
           (unique_in_order (ws1 @ ws2))"
    unfolding p by (simp add: comp_def)
  show "map seat (payout ws1 (Some ws2) pot) = unique_in_order (ws1 @ ws2)"
    unfolding p by (simp add: comp_def)
qed

text \<open>
  Claim C2 (payout conservation). Whenever board 1 has a winner, and board 2 has one
  if a second winner list is given, the amounts returned by \<open>payout\<close> sum exactly to
  \<open>potAwarded\<close>; the result names every winning seat once and no other seat. The
  calculator is the one of the specification (section 4.5): the handler of
  \<open>index.ts\<close> calls \<open>endOfHandPayout\<close> of \<open>logic.js\<close>, whose body is not part of the
  sources.
\<close>

theorem payout_sums_to_pot:
  assumes "board1Winners \<noteq> []" and "board2Winners \<noteq> Some []"
  shows "sum_list (map amount (payout board1Winners board2Winners potAwarded)) = potAwarded
       \<and> distinct (map seat (payout board1Winners board2Winners potAwarded))
       \<and> set (map seat (payout board1Winners board2Winners potAwarded))
           = set board1Winners \<union> (case board2Winners of None \<Rightarrow> {} | Some ws2 \<Rightarrow> set ws2)"
proof (cases board2Winners)
  case None
  have "sum_list (map amount (payout board1Winners None potAwarded)) = potAwarded"
    unfolding payout_single_amounts by (rule board_payout_sum [OF assms(1)])
  moreover have "distinct (map seat (payout board1Winners None potAwarded))"
    unfolding payout_single_amounts by (rule unique_in_order_distinct)
  moreover have "set (map seat (payout board1Winners None potAwarded)) = set board1Winners"
    unfolding payout_single_amounts by (rule unique_in_order_set)
  ultimately show ?thesis unfolding None by simp
next
  case (Some ws2)
  then have ne: "ws2 \<noteq> []" using assms(2) by simp
  let ?seats = "unique_in_order (board1Winners @ ws2)"
  have d: "distinct ?seats" by (rule unique_in_order_distinct)
  have s: "set ?seats = set board1Winners \<union> set ws2"
    unfolding unique_in_order_set by simp
  have s1: "set board1Winners \<subseteq> set ?seats" and s2: "set ws2 \<subseteq> set ?seats"
    unfolding s by blast+
  have "sum_list (map amount (payout board1Winners (Some ws2) potAwarded))
          = sum_list (map (credited (board_payout (potAwarded - potAwarded div 2) board1Winners)) ?seats)
            + sum_list (map (credited (board_payout (potAwarded div 2) ws2)) ?seats)"
    unfolding payout_double_amounts by (rule sum_list_addf)
  also have "\<dots> = (potAwarded - potAwarded div 2) + potAwarded div 2"
    unfolding board_payout_credited_sum [OF assms(1) s1 d]
              board_payout_credited_sum [OF ne s2 d] ..
  finally have "sum_list (map amount (payout board1Winners (Some ws2) potAwarded)) = potAwarded"
    by simp
  moreover have "distinct (map seat (payout board1Winners (Some ws2) potAwarded))"
    unfolding payout_double_amounts by (rule d)
  moreover have "set (map seat (payout board1Winners (Some ws2) potAwarded))
                   = set board1Winners \<union> set ws2"
    unfolding payout_double_amounts by (rule s)
  ultimately show ?thesis unfolding Some by simp
qed

lemma payout_example_double:
  "payout [1, 2, 3] (Some [2, 5]) 31
     = [\<lparr>seat = 1, amount = 6\<rparr>, \<lparr>seat = 2, amount = 13\<rparr>, \<lparr>seat = 3, amount = 5\<rparr>,
        \<lparr>seat = 5, amount = 7\<rparr>]"
  by code_simp

lemma payout_example_single:
  "payout [2] None 30 = [\<lparr>seat = 2, amount = 30\<rparr>]"
  by code_simp

theorem payout_sums_to_pot_witness:
  "payout [1, 2, 3] (Some [2, 5]) 31
     = [\<lparr>seat = 1, amount = 6\<rparr>, \<lparr>seat = 2, amount = 13\<rparr>, \<lparr>seat = 3, amount = 5\<rparr>,
        \<lparr>seat = 5, amount = 7\<rparr>]
   \<and> sum_list (map amount (payout [1, 2, 3] (Some [2, 5]) 31)) = 31
   \<and> payout [2] None 30 = [\<lparr>seat = 2, amount = 30\<rparr>]
   \<and> sum_list (map amount (payout [2] None 30)) = 30"
proof -
  have c: "[1, 2, 3] \<noteq> ([] :: int list)" "Some [2, 5] \<noteq> Some ([] :: int list)"
          "[2] \<noteq> ([] :: int list)" "None \<noteq> Some ([] :: int list)" by simp_all
  note a = payout_sums_to_pot [OF c(1) c(2), of 31, THEN conjunct1]
  note b = payout_sums_to_pot [OF c(3) c(4), of 30, THEN conjunct1]
  show ?thesis
    using a b payout_example_double payout_example_single by blast
qed

lemma payout_heads_up:
  "payout [A] (Some [B]) P
     = (if A = B then [\<lparr>seat = A, amount = (P - P div 2) + P div 2\<rparr>]
        else [\<lparr>seat = A, amount = P - P div 2\<rparr>, \<lparr>seat = B, amount = P div 2\<rparr>])"
proof -
  have u: "unique_in_order [A] = [A]" "unique_in_order [B] = [B]"
          "unique_in_order ([A] @ [B]) = (if A = B then [A] else [A, B])"
    unfolding unique_in_order_def by simp_all
  have b: "\<And>pot s. board_payout pot [s] = [(s, pot)]"
    unfolding board_payout_def u unique_in_order_def by (simp add: Let_def)
  show ?thesis
    unfolding payout_def Let_def option.case b u credited_def by simp
qed

lemma payout_example_tie:
  "payout [1, 4] (Some [2]) 10
     = [\<lparr>seat = 1, amount = 3\<rparr>, \<lparr>seat = 4, amount = 2\<rparr>, \<lparr>seat = 2, amount = 5\<rparr>]"
  by code_simp

lemma unique_in_order_example:
  "unique_in_order [1, 4 :: int] = [1, 4]" "unique_in_order [2 :: int] = [2]"
  by code_simp+

text \<open>
  Claim C7 (double-board split). For an even pot \<open>P\<close>, with the single winner \<open>A\<close> on
  board 1 and the single winner \<open>B\<close> on board 2, \<open>payout\<close> gives \<open>P div 2\<close> to \<open>A\<close> and
  \<open>P div 2\<close> to \<open>B\<close> (the whole pot when they are the same seat). With several tied
  winners on a board, every seat is credited the sum of its shares of the two
  boards, the shares of each board sum to \<open>P div 2\<close>, and the \<open>i\<close>-th tied winner of a
  board, in the order the winners are given (clockwise from the button), receives
  the even share \<open>(P div 2) div n\<close> plus one odd chip if \<open>i < (P div 2) mod n\<close>.
\<close>

theorem double_board_split:
  assumes "even P"
    and "i < length (unique_in_order ws1)" and "j < length (unique_in_order ws2)"
  shows "payout [A] (Some [B]) P
           = (if A = B then [\<lparr>seat = A, amount = P\<rparr>]
              else [\<lparr>seat = A, amount = P div 2\<rparr>, \<lparr>seat = B, amount = P div 2\<rparr>])
       \<and> map amount (payout ws1 (Some ws2) P)
           = map (\<lambda>s. credited (board_payout (P div 2) ws1) s
                      + credited (board_payout (P div 2) ws2) s)
                 (unique_in_order (ws1 @ ws2))
       \<and> sum_list (map snd (board_payout (P div 2) ws1)) = P div 2
       \<and> sum_list (map snd (board_payout (P div 2) ws2)) = P div 2
       \<and> board_payout (P div 2) ws1 ! i
           = (unique_in_order ws1 ! i,
              (P div 2) div int (length (unique_in_order ws1))
                + (if int i < (P div 2) mod int (length (unique_in_order ws1)) then 1 else 0))
       \<and> board_payout (P div 2) ws2 ! j
           = (unique_in_order ws2 ! j,
              (P div 2) div int (length (unique_in_order ws2))
                + (if int j < (P div 2) mod int (length (unique_in_order ws2)) then 1 else 0))"
proof -
  have half: "P - P div 2 = P div 2" and whole: "P div 2 + P div 2 = P"
    using assms(1) by (elim evenE, simp)+
  have n1: "ws1 \<noteq> []" using assms(2) by (auto simp: unique_in_order_def)
  have n2: "ws2 \<noteq> []" using assms(3) by (auto simp: unique_in_order_def)
  have a: "payout [A] (Some [B]) P
           = (if A = B then [\<lparr>seat = A, amount = P\<rparr>]
              else [\<lparr>seat = A, amount = P div 2\<rparr>, \<lparr>seat = B, amount = P div 2\<rparr>])"
    unfolding payout_heads_up half whole ..
  have b: "map amount (payout ws1 (Some ws2) P)
           = map (\<lambda>s. credited (board_payout (P div 2) ws1) s
                      + credited (board_payout (P div 2) ws2) s)
                 (unique_in_order (ws1 @ ws2))"
    unfolding payout_double_amounts half ..
  show ?thesis
    by (intro conjI a b board_payout_sum [OF n1] board_payout_sum [OF n2]
              board_payout_nth [OF assms(2)] board_payout_nth [OF assms(3)])
qed

theorem double_board_split_witness:
  "payout [1] (Some [2]) 10 = [\<lparr>seat = 1, amount = 5\<rparr>, \<lparr>seat = 2, amount = 5\<rparr>]
   \<and> payout [1, 4] (Some [2]) 10
        = [\<lparr>seat = 1, amount = 3\<rparr>, \<lparr>seat = 4, amount = 2\<rparr>, \<lparr>seat = 2, amount = 5\<rparr>]
   \<and> sum_list (map snd (board_payout (10 div 2) [1, 4])) = 10 div 2
   \<and> board_payout (10 div 2) [1, 4] ! 0 = (1, 3)
   \<and> board_payout (10 div 2) [1, 4] ! 1 = (4, 2)"
proof -
  have e: "even (10 :: int)" by simp
  have l0: "0 < length (unique_in_order [1, 4 :: int])"
   and l1: "1 < length (unique_in_order [1, 4 :: int])"
   and l2: "0 < length (unique_in_order [2 :: int])"
    unfolding unique_in_order_example by simp_all
  note t0 = double_board_split [OF e l0 l2, of 1 2]
  note t1 = double_board_split [OF e l1 l2, of 1 2]
  have a: "payout [1] (Some [2]) 10 = [\<lparr>seat = 1, amount = 5\<rparr>, \<lparr>seat = 2, amount = 5\<rparr>]"
    using t0 [THEN conjunct1] by simp
  have b: "sum_list (map snd (board_payout (10 div 2) [1, 4])) = 10 div 2"
    by (rule t0 [THEN conjunct2, THEN conjunct2, THEN conjunct1])
  have c: "board_payout (10 div 2) [1, 4] ! 0 = (1, 3)"
    using t0 [THEN conjunct2, THEN conjunct2, THEN conjunct2, THEN conjunct2, THEN conjunct1]
    unfolding unique_in_order_example by simp
  have d: "board_payout (10 div 2) [1, 4] ! 1 = (4, 2)"
    using t1 [THEN conjunct2, THEN conjunct2, THEN conjunct2, THEN conjunct2, THEN conjunct1]
    unfolding unique_in_order_example by simp
  show ?thesis using a b c d payout_example_tie by blast
qed

section \<open>The Indian-poker visibility function\<close>

text \<open>
  \<open>public.get_indian_poker_visible_cards(game_state_id_param, requesting_seat_number)\<close>
  of the migration: a \<open>security definer\<close> function, so it reads \<open>player_hands\<close> past the
  row-level policies of the caller. Both arguments are SQL values and may be NULL
  (\<open>None\<close>); a comparison with NULL is not true.
\<close>

text \<open>
  \<open>select gs.room_id, r.game_mode into room_id_val, game_mode_val from game_states gs
  join rooms r on r.id = gs.room_id where gs.id = game_state_id_param\<close>: the variables
  stay NULL when no row is found.
\<close>

definition game_mode_val :: "store \<Rightarrow> uuid option \<Rightarrow> string option" where
  "game_mode_val db game_state_id_param =
     (case game_state_id_param of
        None \<Rightarrow> None
      | Some gid \<Rightarrow>
          (case find (\<lambda>gs. gs_id gs = gid) (game_states db) of
             None \<Rightarrow> None
           | Some gs \<Rightarrow>
               (case find (\<lambda>r. r_id r = gs_room_id gs) (rooms db) of
                  None \<Rightarrow> None
                | Some r \<Rightarrow> Some (game_mode r))))"

text \<open>\<open>(ph.cards::jsonb->>0)::text\<close>: the first element of the array, NULL when it has none.\<close>

definition visible_card :: "PlayerHand \<Rightarrow> card option" where
  "visible_card ph = (case cards ph of [] \<Rightarrow> None | c # cs \<Rightarrow> Some c)"

text \<open>
  \<open>where ph.game_state_id = game_state_id_param and ph.seat_number !=
  requesting_seat_number\<close>.
\<close>

definition other_seat :: "uuid option \<Rightarrow> int option \<Rightarrow> PlayerHand \<Rightarrow> bool" where
  "other_seat game_state_id_param requesting_seat_number ph =
     (game_state_id_param = Some (h_game_state_id ph)
      \<and> (case requesting_seat_number of
            None \<Rightarrow> False
          | Some s \<Rightarrow> h_seat_number ph \<noteq> s))"

definition get_indian_poker_visible_cards ::
  "store \<Rightarrow> uuid option \<Rightarrow> int option \<Rightarrow> string + (int \<times> card option) list" where
  "get_indian_poker_visible_cards db game_state_id_param requesting_seat_number =
     (if (case game_mode_val db game_state_id_param of
            None \<Rightarrow> False
          | Some m \<Rightarrow> m \<noteq> ''indian_poker'')
      then Inl ''This function only works for Indian Poker mode''
      else Inr (map (\<lambda>ph. (h_seat_number ph, visible_card ph))
                 (sort_key h_seat_number
                    (filter (other_seat game_state_id_param requesting_seat_number)
                       (player_hands db)))))"

text \<open>
  \<open>grant execute on function public.get_indian_poker_visible_cards to authenticated,
  anon\<close>: the function is callable through the database API by a signed-in user and by
  a caller with no session. The function itself never reads who calls it.
\<close>

datatype db_role = authenticated | anon

definition execute_granted :: "db_role list" where
  "execute_granted = [authenticated, anon]"

definition rpc_get_indian_poker_visible_cards ::
  "db_role \<Rightarrow> store \<Rightarrow> uuid option \<Rightarrow> int option \<Rightarrow> string + (int \<times> card option) list" where
  "rpc_get_indian_poker_visible_cards role db game_state_id_param requesting_seat_number =
     (if role \<in> set execute_granted
      then get_indian_poker_visible_cards db game_state_id_param requesting_seat_number
      else Inl ''permission denied for function get_indian_poker_visible_cards'')"

text \<open>An Indian-poker hand with one card at seat 1 and one at seat 2.\<close>

definition indian_table :: store where
  "indian_table =
     \<lparr> rooms = [room1 \<lparr> game_mode := ''indian_poker'' \<rparr>],
       room_players = [alice \<lparr> auth_user_id := Some ''user-1'' \<rparr>,
                       bob \<lparr> auth_user_id := Some ''user-2'' \<rparr>],
       game_states = [hand1 \<lparr> gs_id := ''g1'' \<rparr>],
       game_state_secrets = [],
       player_hands =
         [\<lparr> h_room_id = ''r1'', h_game_state_id = ''g1'', h_seat_number = 2,
            cards = [''KH''], h_auth_user_id = Some ''user-2'' \<rparr>,
          \<lparr> h_room_id = ''r1'', h_game_state_id = ''g1'', h_seat_number = 1,
            cards = [''AS''], h_auth_user_id = Some ''user-1'' \<rparr>],
       player_actions = [], hand_results = [] \<rparr>"

section \<open>Properties of the visibility function\<close>

lemma other_seat_Some:
  "other_seat (Some g) (Some s) ph \<longleftrightarrow> h_game_state_id ph = g \<and> h_seat_number ph \<noteq> s"
  unfolding other_seat_def by auto

lemma visible_rows:
  assumes "get_indian_poker_visible_cards db g s = Inr rows"
  shows "rows = map (\<lambda>ph. (h_seat_number ph, visible_card ph))
                  (sort_key h_seat_number (filter (other_seat g s) (player_hands db)))"
  using assms unfolding get_indian_poker_visible_cards_def
  by (simp split: if_splits)

lemma visible_cards_exclude_requester:
  assumes "get_indian_poker_visible_cards db (Some g) (Some s) = Inr rows"
  shows "fst ` set rows
           = h_seat_number ` {ph \<in> set (player_hands db).
                               h_game_state_id ph = g \<and> h_seat_number ph \<noteq> s}"
    and "s \<notin> fst ` set rows"
    and "sorted (map fst rows)"
    and "length rows
           = length (filter (\<lambda>ph. h_game_state_id ph = g \<and> h_seat_number ph \<noteq> s)
                       (player_hands db))"
    and "set rows
           = (\<lambda>ph. (h_seat_number ph, visible_card ph))
               ` {ph \<in> set (player_hands db). h_game_state_id ph = g \<and> h_seat_number ph \<noteq> s}"
proof -
  let ?hs = "filter (other_seat (Some g) (Some s)) (player_hands db)"
  note r = visible_rows [OF assms]
  have f: "?hs = filter (\<lambda>ph. h_game_state_id ph = g \<and> h_seat_number ph \<noteq> s) (player_hands db)"
    by (rule filter_cong) (simp_all add: other_seat_Some)
  have m: "map fst rows = map h_seat_number (sort_key h_seat_number ?hs)"
    unfolding r by (simp add: comp_def)
  show 5: "set rows
           = (\<lambda>ph. (h_seat_number ph, visible_card ph))
               ` {ph \<in> set (player_hands db). h_game_state_id ph = g \<and> h_seat_number ph \<noteq> s}"
    unfolding r f by simp
  show 1: "fst ` set rows
           = h_seat_number ` {ph \<in> set (player_hands db).
                               h_game_state_id ph = g \<and> h_seat_number ph \<noteq> s}"
    unfolding 5 image_image by simp
  show "s \<notin> fst ` set rows" unfolding 1 by auto
  show "sorted (map fst rows)" unfolding m by (rule sorted_sort_key)
  show "length rows
           = length (filter (\<lambda>ph. h_game_state_id ph = g \<and> h_seat_number ph \<noteq> s)
                       (player_hands db))"
    unfolding r f by simp
qed

lemma visible_cards_null_seat:
  "get_indian_poker_visible_cards db g None = Inr rows \<Longrightarrow> rows = []"
  by (drule visible_rows) (simp add: other_seat_def)

text \<open>
  Claim C10 (Indian-poker visibility). The function is executable by \<open>anon\<close> and by
  \<open>authenticated\<close> and takes the requesting seat from its caller. Called for seat 1 it
  returns the card of seat 2 only. A caller without a session who names a seat that
  is not in the hand (seat 3) is not rejected: the function returns the card of every
  seat. The player at seat 1 who names seat 2 receives the card of seat 1, their own.
  The only request the function rejects is one for a hand of another game mode.
\<close>

theorem visibility_rpc_reveals_cards:
  "rpc_get_indian_poker_visible_cards authenticated indian_table (Some ''g1'') (Some 1)
     = Inr [(2, Some ''KH'')]
   \<and> rpc_get_indian_poker_visible_cards anon indian_table (Some ''g1'') (Some 3)
     = Inr [(1, Some ''AS''), (2, Some ''KH'')]
   \<and> rpc_get_indian_poker_visible_cards authenticated indian_table (Some ''g1'') (Some 2)
     = Inr [(1, Some ''AS'')]
   \<and> rpc_get_indian_poker_visible_cards anon dealt (Some ''g1'') (Some 1)
     = Inl ''This function only works for Indian Poker mode''"
  by code_simp

section \<open>The hand engine of the specification\<close>

text \<open>
  Modelled from the spec: the deal and the action processor are \<open>dealHand\<close> and
  \<open>applyAction\<close> of logic.js, which is not among the sources; the handlers above only
  call them. This section follows sections 3, 4.1, 4.2 and 7 of the specification.
  Cards, boards and the shuffle are left out: no chip depends on them.
\<close>

text \<open>Modelled from the spec: the streets of the betting state machine (section 4.2) and the
  error taxonomy (section 7).\<close>

datatype Street = Preflop | Flop | Turn | River | Showdown

datatype EngineError =
    InsufficientPlayers | InvalidSeed | OutOfTurn | IllegalAction string
  | MissingSecret | EvaluationError

text \<open>
  Modelled from the spec: a seated player (section 3). \<open>sp_acted\<close> records that the seat
  has acted since the bet-to-call was last raised; the example of section 8 (the small
  blind calls, the big blind checks, then the street advances) needs it.
\<close>

record SeatedPlayer =
  sp_seat :: int
  sp_stack :: int
  sp_folded :: bool
  sp_all_in :: bool
  sp_wager :: int
  sp_acted :: bool

text \<open>Modelled from the spec: the hand state (section 3), without the cards.\<close>

record HandState =
  hs_button :: int
  hs_street :: Street
  hs_pot :: int
  hs_bet_to_call :: int
  hs_increment :: int
  hs_big_blind :: int
  hs_last_actor :: int
  hs_history :: "(int \<times> ActionType \<times> int) list"

text \<open>Modelled from the spec: the snapshot \<open>apply\<close> takes: the hand state and the seated
  players, in seat order.\<close>

record Snapshot =
  snap_hand :: HandState
  snap_players :: "SeatedPlayer list"

text \<open>Modelled from the spec: the result snapshot of \<open>apply\<close> (section 4.2, section 6).\<close>

record Applied =
  ap_snapshot :: Snapshot
  ap_handCompleted :: bool
  ap_autoWinner :: "int option"
  ap_potAwarded :: "int option"

text \<open>Modelled from the spec: the update of the row of one seat.\<close>

fun update_seat :: "int \<Rightarrow> (SeatedPlayer \<Rightarrow> SeatedPlayer) \<Rightarrow> SeatedPlayer list \<Rightarrow> SeatedPlayer list" where
  "update_seat s f [] = []"
| "update_seat s f (p # ps) = (if sp_seat p = s then f p # ps else p # update_seat s f ps)"

text \<open>Modelled from the spec: the seats clockwise from a seat, in ascending seat
  number and around.\<close>

definition clockwise_from :: "int \<Rightarrow> SeatedPlayer list \<Rightarrow> SeatedPlayer list" where
  "clockwise_from s ps = filter (\<lambda>p. s < sp_seat p) ps @ filter (\<lambda>p. sp_seat p \<le> s) ps"


text \<open>Modelled from the spec: a seat that may still act is neither folded nor all-in.\<close>

definition can_act :: "SeatedPlayer \<Rightarrow> bool" where
  "can_act p \<longleftrightarrow> \<not> sp_folded p \<and> \<not> sp_all_in p"

text \<open>Modelled from the spec: the seat whose turn it is, ``the next non-folded,
  non-all-in seat clockwise from the last actor''.\<close>

definition current_actor :: "Snapshot \<Rightarrow> int option" where
  "current_actor snap =
     (case filter can_act (clockwise_from (hs_last_actor (snap_hand snap)) (snap_players snap)) of
        [] \<Rightarrow> None
      | p # qs \<Rightarrow> Some (sp_seat p))"

text \<open>
  Modelled from the spec: the legality of an action of the acting seat and the chips
  it commits (section 4.2). A call for less than the gap is an all-in. The amount of
  a bet or a raise is the chips the seat adds; the first bet is at least the big blind,
  a raise lifts the bet-to-call by at least the previous increment.
\<close>

definition wager_of ::
  "HandState \<Rightarrow> SeatedPlayer \<Rightarrow> ActionType \<Rightarrow> int option \<Rightarrow> EngineError + (ActionType \<times> int)" where
  "wager_of h p t a =
     (case t of
        Fold \<Rightarrow> Inr (Fold, 0)
      | Check \<Rightarrow>
          if sp_wager p = hs_bet_to_call h then Inr (Check, 0)
          else Inl (IllegalAction ''outstanding bet'')
      | Call \<Rightarrow>
          if sp_wager p < hs_bet_to_call h
          then (if sp_stack p < hs_bet_to_call h - sp_wager p then Inr (AllIn, sp_stack p)
                else Inr (Call, hs_bet_to_call h - sp_wager p))
          else Inl (IllegalAction ''nothing to call'')
      | Bet \<Rightarrow>
          (case a of
             None \<Rightarrow> Inl (IllegalAction ''wrong amount'')
           | Some x \<Rightarrow>
               if x \<le> 0 \<or> hs_bet_to_call h \<noteq> 0 then Inl (IllegalAction ''wrong amount'')
               else if sp_stack p < x then Inl (IllegalAction ''exceeds stack'')
               else if x < hs_big_blind h then Inl (IllegalAction ''below minimum'')
               else Inr (Bet, x))
      | Raise \<Rightarrow>
          (case a of
             None \<Rightarrow> Inl (IllegalAction ''wrong amount'')
           | Some x \<Rightarrow>
               if x \<le> 0 \<or> hs_bet_to_call h = 0 then Inl (IllegalAction ''wrong amount'')
               else if sp_stack p < x then Inl (IllegalAction ''exceeds stack'')
               else if sp_wager p + x - hs_bet_to_call h < hs_increment h
               then Inl (IllegalAction ''below minimum raise'')
               else Inr (Raise, x))
      | AllIn \<Rightarrow> Inr (AllIn, sp_stack p))"

text \<open>Modelled from the spec: the seat after its action: the chips leave the stack
  and join its wager of the street.\<close>

definition commit :: "ActionType \<Rightarrow> int \<Rightarrow> SeatedPlayer \<Rightarrow> SeatedPlayer" where
  "commit t pay p =
     p \<lparr> sp_stack := sp_stack p - pay, sp_wager := sp_wager p + pay,
         sp_folded := (sp_folded p \<or> t = Fold), sp_all_in := (sp_all_in p \<or> t = AllIn),
         sp_acted := True \<rparr>"

text \<open>
  Modelled from the spec: the Pot Accountant folds the wager into the pot and the action
  into the history; a wager above the bet-to-call becomes the bet-to-call, and a lift
  of at least the previous increment becomes the increment. A shorter all-in leaves
  the increment.
\<close>

definition account :: "int \<Rightarrow> ActionType \<Rightarrow> int \<Rightarrow> SeatedPlayer \<Rightarrow> HandState \<Rightarrow> HandState" where
  "account s t pay p h =
     h \<lparr> hs_pot := hs_pot h + pay,
         hs_bet_to_call := max (hs_bet_to_call h) (sp_wager p + pay),
         hs_increment := (if hs_increment h \<le> sp_wager p + pay - hs_bet_to_call h
                          then sp_wager p + pay - hs_bet_to_call h else hs_increment h),
         hs_last_actor := s,
         hs_history := hs_history h @ [(s, t, pay)] \<rparr>"

text \<open>Modelled from the spec: a lift of at least the previous increment reopens the
  action for the seats that had acted.\<close>

definition reopen :: "HandState \<Rightarrow> SeatedPlayer \<Rightarrow> int \<Rightarrow> SeatedPlayer list \<Rightarrow> SeatedPlayer list" where
  "reopen h p pay ps =
     (if hs_bet_to_call h < sp_wager p + pay \<and> hs_increment h \<le> sp_wager p + pay - hs_bet_to_call h
      then map (\<lambda>q. q \<lparr> sp_acted := False \<rparr>) ps else ps)"

text \<open>Modelled from the spec: the street is closed ``when every remaining (non-folded)
  seat has either matched the current bet-to-call or is all-in'', each after acting.\<close>

definition street_closed :: "HandState \<Rightarrow> SeatedPlayer list \<Rightarrow> bool" where
  "street_closed h ps =
     list_all (\<lambda>p. sp_folded p \<or> sp_all_in p \<or> (sp_acted p \<and> sp_wager p = hs_bet_to_call h)) ps"

text \<open>Modelled from the spec: \<open>Preflop \<rightarrow> Flop \<rightarrow> Turn \<rightarrow> River \<rightarrow> Showdown/Complete\<close>.\<close>

fun next_street :: "Street \<Rightarrow> Street" where
  "next_street Preflop = Flop"
| "next_street Flop = Turn"
| "next_street Turn = River"
| "next_street River = Showdown"
| "next_street Showdown = Showdown"

text \<open>
  Modelled from the spec: after an accepted action. One seat left: the hand completes,
  that seat is the auto winner and the pot is awarded. The street closed: the next
  street, wagers and bet-to-call reset to zero; after the river the hand completes.
\<close>

definition progress :: "Snapshot \<Rightarrow> Applied" where
  "progress snap =
     (let h = snap_hand snap; ps = snap_players snap in
      case filter (\<lambda>p. \<not> sp_folded p) ps of
        [w] \<Rightarrow> \<lparr> ap_snapshot = snap \<lparr> snap_hand := h \<lparr> hs_street := Showdown \<rparr> \<rparr>,
                 ap_handCompleted = True, ap_autoWinner = Some (sp_seat w),
                 ap_potAwarded = Some (hs_pot h) \<rparr>
      | remaining \<Rightarrow>
          if street_closed h ps
          then \<lparr> ap_snapshot =
                   \<lparr> snap_hand = h \<lparr> hs_street := next_street (hs_street h), hs_bet_to_call := 0,
                                     hs_increment := hs_big_blind h \<rparr>,
                     snap_players = map (\<lambda>q. q \<lparr> sp_wager := 0, sp_acted := False \<rparr>) ps \<rparr>,
                 ap_handCompleted = (hs_street h = River),
                 ap_autoWinner = None,
                 ap_potAwarded = (if hs_street h = River then Some (hs_pot h) else None) \<rparr>
          else \<lparr> ap_snapshot = snap, ap_handCompleted = False, ap_autoWinner = None,
                 ap_potAwarded = None \<rparr>)"

text \<open>Modelled from the spec: \<open>apply(state, seat, actionType, amount?)\<close> (section 4.2).\<close>

definition apply_action ::
  "Snapshot \<Rightarrow> int \<Rightarrow> ActionType \<Rightarrow> int option \<Rightarrow> EngineError + Applied" where
  "apply_action snap s t a =
     (let h = snap_hand snap; ps = snap_players snap in
      if hs_street h = Showdown then Inl (IllegalAction ''street closed'')
      else if current_actor snap \<noteq> Some s then Inl OutOfTurn
      else case find (\<lambda>p. sp_seat p = s) ps of
             None \<Rightarrow> Inl OutOfTurn
           | Some p \<Rightarrow>
               (case wager_of h p t a of
                  Inl e \<Rightarrow> Inl e
                | Inr (t', pay) \<Rightarrow>
                    Inr (progress
                           \<lparr> snap_hand = account s t' pay p h,
                             snap_players = update_seat s (commit t' pay) (reopen h p pay ps) \<rparr>)))"







text \<open>Modelled from the spec: a sequence of submitted actions; a rejected action leaves the
  snapshot (section 7: no state mutation occurs).\<close>

definition step :: "Snapshot \<Rightarrow> int \<times> ActionType \<times> int option \<Rightarrow> Snapshot" where
  "step snap act =
     (case act of (s, t, a) \<Rightarrow>
        (case apply_action snap s t a of Inl e \<Rightarrow> snap | Inr ap \<Rightarrow> ap_snapshot ap))"

text \<open>Modelled from the spec: the snapshots a sequence of submitted actions passes through.\<close>

fun run :: "Snapshot \<Rightarrow> (int \<times> ActionType \<times> int option) list \<Rightarrow> Snapshot list" where
  "run snap [] = [snap]"
| "run snap (act # acts) = snap # run (step snap act) acts"











section \<open>Properties of the hand engine of the specification\<close>


































































end
